theory Spec2Isabelle
  imports Complex_Main "HOL-Library.Word"
begin

unbundle bit_operations_syntax

section \<open>JavaScript values\<close>

text \<open>
  The worker computes with JavaScript numbers and reads properties that may be absent.
  A value is \<open>undefined\<close>, one of the three special numbers, or a finite number.
  Finite numbers are the real numbers: \<open>+\<close>, \<open>-\<close>, \<open>*\<close> and \<open>/\<close> are exact, so rounding,
  overflow of a finite result to an infinity and the sign of zero are left out of them
  (a zero divisor counts as +0). Rounding to a double is a function of its own, below,
  applied where the code truncates a computed number to an integer.
  The special values follow the language: an arithmetic operand is first converted by
  ToNumber (\<open>undefined\<close> becomes NaN), NaN is absorbing, and the infinities follow the
  IEEE rules.
\<close>

datatype jsval = Undefined | NaN | PInf | NInf | Fin real

fun ToNumber :: "jsval \<Rightarrow> jsval" where
  "ToNumber Undefined = NaN"
| "ToNumber v = v"

fun isFinite :: "jsval \<Rightarrow> bool" where
  "isFinite (Fin r) = True"
| "isFinite v = False"

text \<open>Truthiness, as tested by \<open>while (i--)\<close>: 0, NaN and \<open>undefined\<close> are falsy.\<close>

fun truthy :: "jsval \<Rightarrow> bool" where
  "truthy (Fin r) = (r \<noteq> 0)"
| "truthy PInf = True"
| "truthy NInf = True"
| "truthy v = False"

instantiation jsval :: "{plus, minus, times, inverse}"
begin

fun plus_jsval :: "jsval \<Rightarrow> jsval \<Rightarrow> jsval" where
  "plus_jsval (Fin a) (Fin b) = Fin (a + b)"
| "plus_jsval (Fin a) PInf = PInf"
| "plus_jsval (Fin a) NInf = NInf"
| "plus_jsval PInf (Fin b) = PInf"
| "plus_jsval PInf PInf = PInf"
| "plus_jsval NInf (Fin b) = NInf"
| "plus_jsval NInf NInf = NInf"
| "plus_jsval v w = NaN"

fun minus_jsval :: "jsval \<Rightarrow> jsval \<Rightarrow> jsval" where
  "minus_jsval (Fin a) (Fin b) = Fin (a - b)"
| "minus_jsval (Fin a) PInf = NInf"
| "minus_jsval (Fin a) NInf = PInf"
| "minus_jsval PInf (Fin b) = PInf"
| "minus_jsval PInf NInf = PInf"
| "minus_jsval NInf (Fin b) = NInf"
| "minus_jsval NInf PInf = NInf"
| "minus_jsval v w = NaN"

fun times_jsval :: "jsval \<Rightarrow> jsval \<Rightarrow> jsval" where
  "times_jsval (Fin a) (Fin b) = Fin (a * b)"
| "times_jsval (Fin a) PInf = (if 0 < a then PInf else if a < 0 then NInf else NaN)"
| "times_jsval (Fin a) NInf = (if 0 < a then NInf else if a < 0 then PInf else NaN)"
| "times_jsval PInf (Fin b) = (if 0 < b then PInf else if b < 0 then NInf else NaN)"
| "times_jsval NInf (Fin b) = (if 0 < b then NInf else if b < 0 then PInf else NaN)"
| "times_jsval PInf PInf = PInf"
| "times_jsval PInf NInf = NInf"
| "times_jsval NInf PInf = NInf"
| "times_jsval NInf NInf = PInf"
| "times_jsval v w = NaN"

fun divide_jsval :: "jsval \<Rightarrow> jsval \<Rightarrow> jsval" where
  "divide_jsval (Fin a) (Fin b) =
     (if b \<noteq> 0 then Fin (a / b)
      else if 0 < a then PInf else if a < 0 then NInf else NaN)"
| "divide_jsval (Fin a) PInf = Fin 0"
| "divide_jsval (Fin a) NInf = Fin 0"
| "divide_jsval PInf (Fin b) = (if 0 \<le> b then PInf else NInf)"
| "divide_jsval NInf (Fin b) = (if 0 \<le> b then NInf else PInf)"
| "divide_jsval v w = NaN"

definition inverse_jsval :: "jsval \<Rightarrow> jsval" where
  "inverse_jsval v = divide (Fin 1) v"

instance ..

end

subsection \<open>Rounding to a double\<close>

text \<open>
  The double nearest to a real number, ties to the even significand: 53 significant bits,
  the spacing of the subnormal numbers below \<open>2^-1022\<close>, an infinity from \<open>2^1024\<close> on.
\<close>

definition round_half_even :: "real \<Rightarrow> int" where
  "round_half_even r =
     (let f = \<lfloor>r\<rfloor>; d = r - of_int f
      in if d < 1 / 2 then f else if 1 / 2 < d then f + 1 else if even f then f else f + 1)"

definition round_double :: "real \<Rightarrow> jsval" where
  "round_double r =
     (if r = 0 then Fin 0
      else
        (let e = max \<lfloor>log 2 \<bar>r\<bar>\<rfloor> (- 1022);
             u = 2 powi (e - 52);
             v = of_int (round_half_even (r / u)) * u
         in if 2 ^ 1024 \<le> \<bar>v\<bar> then (if 0 < r then PInf else NInf) else Fin v))"

fun js_round :: "jsval \<Rightarrow> jsval" where
  "js_round (Fin r) = round_double r"
| "js_round v = v"

text \<open>The comparison \<open>a > b\<close>: false as soon as an operand converts to NaN.\<close>

fun js_gt :: "jsval \<Rightarrow> jsval \<Rightarrow> bool" where
  "js_gt (Fin a) (Fin b) = (b < a)"
| "js_gt (Fin a) NInf = True"
| "js_gt PInf (Fin b) = True"
| "js_gt PInf NInf = True"
| "js_gt v w = False"

subsection \<open>The Math object\<close>

definition Math_PI :: jsval where
  "Math_PI = Fin pi"

fun Math_sin :: "jsval \<Rightarrow> jsval" where
  "Math_sin (Fin r) = Fin (sin r)"
| "Math_sin v = NaN"

fun Math_cos :: "jsval \<Rightarrow> jsval" where
  "Math_cos (Fin r) = Fin (cos r)"
| "Math_cos v = NaN"

fun Math_acos :: "jsval \<Rightarrow> jsval" where
  "Math_acos (Fin r) = (if - 1 \<le> r \<and> r \<le> 1 then Fin (arccos r) else NaN)"
| "Math_acos v = NaN"

fun Math_floor :: "jsval \<Rightarrow> jsval" where
  "Math_floor (Fin r) = Fin (of_int \<lfloor>r\<rfloor>)"
| "Math_floor Undefined = NaN"
| "Math_floor v = v"

fun Math_abs :: "jsval \<Rightarrow> jsval" where
  "Math_abs (Fin r) = Fin \<bar>r\<bar>"
| "Math_abs PInf = PInf"
| "Math_abs NInf = PInf"
| "Math_abs v = NaN"

subsection \<open>The operator \<open>~\<close>\<close>

text \<open>
  ToInt32 truncates towards zero and wraps modulo \<open>2^32\<close> into the signed 32-bit range;
  NaN and the infinities convert to 0. \<open>~v\<close> is the bitwise complement of ToInt32 \<open>v\<close>,
  read back as a number.
\<close>

definition trunc_to_int :: "real \<Rightarrow> int" where
  "trunc_to_int r = (if 0 \<le> r then \<lfloor>r\<rfloor> else - \<lfloor>- r\<rfloor>)"

fun ToInt32 :: "jsval \<Rightarrow> 32 word" where
  "ToInt32 (Fin r) = word_of_int (trunc_to_int r)"
| "ToInt32 v = 0"

definition bitwise_not :: "jsval \<Rightarrow> jsval" where
  "bitwise_not v = Fin (of_int (sint (NOT (ToInt32 v))))"

section \<open>Render objects\<close>

text \<open>
  A render object is a JavaScript object: a bag of properties and a class. A property
  that has not been assigned yet reads as \<open>undefined\<close>. The field \<open>size'\<close> is the
  property \<open>size\<close>. The property \<open>ctx\<close> of every object refers to the one drawing
  context of the scene's canvas, so the methods that draw take that canvas and return it.
\<close>

datatype RenderObjectClass = RenderObject | CircleDot | SlantedCircleDot | GlobeDot

record RenderObject =
  cls :: RenderObjectClass
  x :: jsval
  y :: jsval
  size' :: jsval
  height :: jsval
  width :: jsval
  perspective :: jsval
  projection_center_x :: jsval
  projection_center_y :: jsval
  angle :: jsval
  radius :: jsval
  z :: jsval
  theta :: jsval
  phi :: jsval
  scaleProjected :: jsval
  xProjected :: jsval
  yProjected :: jsval

definition new_object :: "RenderObjectClass \<Rightarrow> RenderObject" where
  "new_object c =
     \<lparr>cls = c, x = Undefined, y = Undefined, size' = Undefined, height = Undefined,
      width = Undefined, perspective = Undefined, projection_center_x = Undefined,
      projection_center_y = Undefined, angle = Undefined, radius = Undefined,
      z = Undefined, theta = Undefined, phi = Undefined, scaleProjected = Undefined,
      xProjected = Undefined, yProjected = Undefined\<rparr>"

subsection \<open>The drawing surface\<close>

text \<open>
  The canvas and its 2d context belong to the browser. The model keeps the buffer
  dimensions assigned to the canvas and the calls made on its context, in order; an
  assignment to \<open>globalAlpha\<close> is one of the calls.
\<close>

datatype ctx_call =
    FillRect jsval jsval jsval jsval
  | ClearRect jsval jsval jsval jsval
  | BeginPath
  | Arc jsval jsval jsval jsval jsval
  | Fill
  | SetGlobalAlpha jsval
  | DrawImageParticle jsval jsval jsval jsval
  | FillText jsval jsval jsval
  | Scale jsval jsval

record Surface =
  canvas_width :: jsval
  canvas_height :: jsval
  calls :: "ctx_call list"

definition ctx_call :: "ctx_call \<Rightarrow> Surface \<Rightarrow> Surface" where
  "ctx_call c cv = cv\<lparr>calls := calls cv @ [c]\<rparr>"

subsection \<open>RenderObject\<close>

text \<open>
  Every result of \<open>Math.random()\<close> that a method consumes is a parameter of its model,
  in the order of the calls: \<open>r1\<close> is the first draw.
\<close>

definition RenderObject_constructor ::
  "RenderObject \<Rightarrow> jsval \<Rightarrow> jsval \<Rightarrow> real \<Rightarrow> real \<Rightarrow> RenderObject" where
  "RenderObject_constructor this w h r1 r2 =
     this\<lparr>x := Fin r1 * w, y := Fin r2 * h, size' := Fin 5, height := h, width := w\<rparr>"

definition RenderObject_new :: "jsval \<Rightarrow> jsval \<Rightarrow> real \<Rightarrow> real \<Rightarrow> RenderObject" where
  "RenderObject_new w h r1 r2 = RenderObject_constructor (new_object RenderObject) w h r1 r2"

definition RenderObject_draw :: "RenderObject \<Rightarrow> Surface \<Rightarrow> RenderObject \<times> Surface" where
  "RenderObject_draw this cv =
     (this, ctx_call (FillRect (x this) (y this) (size' this) (size' this)) cv)"

definition resizeUpdate :: "jsval \<Rightarrow> jsval \<Rightarrow> real \<Rightarrow> real \<Rightarrow> RenderObject \<Rightarrow> RenderObject" where
  "resizeUpdate h w r1 r2 this =
     (let this = this\<lparr>height := h\<rparr>;
          this = this\<lparr>width := w\<rparr>;
          this = this\<lparr>x := Fin r1 * w\<rparr>;
          this = this\<lparr>y := Fin r2 * h\<rparr>;
          this = this\<lparr>perspective := width this * Fin 0.8\<rparr>;
          this = this\<lparr>projection_center_x := width this / Fin 2\<rparr>;
          this = this\<lparr>projection_center_y := height this / Fin 2\<rparr>
      in this)"

definition RenderObject_update :: "RenderObject \<Rightarrow> RenderObject" where
  "RenderObject_update this = this"

subsection \<open>CircleDot\<close>

definition CircleDot_new :: "jsval \<Rightarrow> jsval \<Rightarrow> real \<Rightarrow> real \<Rightarrow> real \<Rightarrow> RenderObject" where
  "CircleDot_new w h r1 r2 r3 =
     (let this = RenderObject_constructor (new_object CircleDot) w h r1 r2;
          this = this\<lparr>x := Fin 0\<rparr>;
          this = this\<lparr>y := Fin 0\<rparr>;
          this = this\<lparr>angle := Math_floor (Fin r3 * Fin 360)\<rparr>;
          this = this\<lparr>radius := w / Fin 4\<rparr>
      in this)"

definition CircleDot_update :: "RenderObject \<Rightarrow> RenderObject" where
  "CircleDot_update this = this\<lparr>angle := angle this + Fin 1\<rparr>"

definition CircleDot_project :: "RenderObject \<Rightarrow> RenderObject" where
  "CircleDot_project this =
     (let theta' = angle this * Math_PI / Fin 180;
          this = this\<lparr>x := radius this * Math_cos theta' + width this / Fin 2\<rparr>;
          this = this\<lparr>y := radius this * Math_sin theta' + height this / Fin 2\<rparr>
      in this)"

definition CircleDot_draw :: "RenderObject \<Rightarrow> Surface \<Rightarrow> RenderObject \<times> Surface" where
  "CircleDot_draw this cv =
     (let this = CircleDot_project this;
          cv = ctx_call BeginPath cv;
          cv = ctx_call (Arc (x this) (y this) (Fin 3) (Fin 0) (Fin 2 * Math_PI)) cv;
          cv = ctx_call Fill cv
      in (this, cv))"

subsection \<open>SlantedCircleDot\<close>

definition SlantedCircleDot_new :: "jsval \<Rightarrow> jsval \<Rightarrow> real \<Rightarrow> real \<Rightarrow> real \<Rightarrow> RenderObject" where
  "SlantedCircleDot_new w h r1 r2 r3 =
     (let this = RenderObject_constructor (new_object SlantedCircleDot) w h r1 r2;
          this = this\<lparr>x := Fin 0\<rparr>;
          this = this\<lparr>y := Fin 0\<rparr>;
          this = this\<lparr>z := Fin 0\<rparr>;
          this = this\<lparr>theta := Math_floor (Fin r3 * Fin 360)\<rparr>;
          this = this\<lparr>phi := Fin 45\<rparr>;
          this = this\<lparr>radius := w / Fin 4\<rparr>;
          this = this\<lparr>perspective := Fin 0\<rparr>;
          this = this\<lparr>projection_center_x := width this / Fin 2\<rparr>;
          this = this\<lparr>projection_center_y := height this / Fin 2\<rparr>;
          this = this\<lparr>scaleProjected := Fin 0\<rparr>;
          this = this\<lparr>xProjected := Fin 0\<rparr>;
          this = this\<lparr>yProjected := Fin 0\<rparr>
      in this)"

definition SlantedCircleDot_update :: "RenderObject \<Rightarrow> RenderObject" where
  "SlantedCircleDot_update this = this\<lparr>theta := theta this + Fin 0.01\<rparr>"

definition SlantedCircleDot_project :: "RenderObject \<Rightarrow> RenderObject" where
  "SlantedCircleDot_project this =
     (let this = this\<lparr>x := width this / Fin 3 * Math_sin (phi this) * Math_cos (theta this)\<rparr>;
          this = this\<lparr>y := height this / Fin 2 * Math_sin (phi this)\<rparr>;
          this = this\<lparr>z := width this / Fin 3 * Math_sin (phi this) * Math_sin (theta this)
                            + width this / Fin 3\<rparr>;
          this = this\<lparr>perspective := width this * Fin 0.8\<rparr>;
          this = this\<lparr>scaleProjected := perspective this / (perspective this + z this)\<rparr>;
          this = this\<lparr>xProjected := x this * scaleProjected this + projection_center_x this\<rparr>;
          this = this\<lparr>yProjected :=
                   y this * scaleProjected this + projection_center_y this / Fin 2\<rparr>
      in this)"

definition SlantedCircleDot_draw :: "RenderObject \<Rightarrow> Surface \<Rightarrow> RenderObject \<times> Surface" where
  "SlantedCircleDot_draw this cv =
     (let this = SlantedCircleDot_project this;
          cv = ctx_call (SetGlobalAlpha (Math_abs (Fin 1 - z this / width this))) cv;
          cv = ctx_call BeginPath cv;
          cv = ctx_call (Arc (xProjected this) (yProjected this) (Fin 5 * scaleProjected this)
                             (Fin 0) (Fin 2 * Math_PI)) cv;
          cv = ctx_call Fill cv
      in (this, cv))"

subsection \<open>GlobeDot\<close>

definition GlobeDot_new ::
  "jsval \<Rightarrow> jsval \<Rightarrow> real \<Rightarrow> real \<Rightarrow> real \<Rightarrow> real \<Rightarrow> real \<Rightarrow> real \<Rightarrow> real \<Rightarrow> RenderObject" where
  "GlobeDot_new w h r1 r2 r3 r4 r5 r6 r7 =
     (let this = RenderObject_constructor (new_object GlobeDot) w h r1 r2;
          this = this\<lparr>x := (Fin r3 - Fin 0.5) * w\<rparr>;
          this = this\<lparr>y := (Fin r4 - Fin 0.5) * h\<rparr>;
          this = this\<lparr>z := (Fin r5 - Fin 0.5) * h\<rparr>;
          this = this\<lparr>perspective := width this * Fin 0.8\<rparr>;
          this = this\<lparr>projection_center_x := width this / Fin 2\<rparr>;
          this = this\<lparr>projection_center_y := height this / Fin 2\<rparr>;
          this = this\<lparr>scaleProjected := Fin 0\<rparr>;
          this = this\<lparr>xProjected := Fin 0\<rparr>;
          this = this\<lparr>yProjected := Fin 0\<rparr>;
          this = this\<lparr>theta := Fin r6 * Fin 2 * Math_PI\<rparr>;
          this = this\<lparr>phi := Math_acos (Fin r7 * Fin 2 - Fin 1)\<rparr>
      in this)"

definition GlobeDot_update :: "RenderObject \<Rightarrow> RenderObject" where
  "GlobeDot_update this = this\<lparr>theta := theta this + Fin 0.01\<rparr>"

definition GlobeDot_project :: "RenderObject \<Rightarrow> RenderObject" where
  "GlobeDot_project this =
     (let this = this\<lparr>x := width this / Fin 3 * Math_sin (phi this) * Math_cos (theta this)\<rparr>;
          this = this\<lparr>y := width this / Fin 3 * Math_cos (phi this)\<rparr>;
          this = this\<lparr>z := width this / Fin 3 * Math_sin (phi this) * Math_sin (theta this)
                            + width this / Fin 3\<rparr>;
          this = this\<lparr>perspective := width this * Fin 0.8\<rparr>;
          this = this\<lparr>scaleProjected := perspective this / (perspective this + z this)\<rparr>;
          this = this\<lparr>xProjected := x this * scaleProjected this + projection_center_x this\<rparr>;
          this = this\<lparr>yProjected := y this * scaleProjected this + projection_center_y this\<rparr>
      in this)"

definition GlobeDot_draw :: "RenderObject \<Rightarrow> Surface \<Rightarrow> RenderObject \<times> Surface" where
  "GlobeDot_draw this cv =
     (let this = GlobeDot_project this;
          cv = ctx_call (SetGlobalAlpha (Math_abs (Fin 1 - z this / width this))) cv;
          radius' = Fin 5 * scaleProjected this;
          cv = ctx_call (DrawImageParticle (xProjected this) (yProjected this) radius' radius') cv
      in (this, cv))"

subsection \<open>Method dispatch\<close>

text \<open>A call \<open>renderObject.update()\<close> or \<open>renderObject.draw()\<close> runs the method of the
  object's class.\<close>

definition update :: "RenderObject \<Rightarrow> RenderObject" where
  "update this =
     (case cls this of
        RenderObject \<Rightarrow> RenderObject_update this
      | CircleDot \<Rightarrow> CircleDot_update this
      | SlantedCircleDot \<Rightarrow> SlantedCircleDot_update this
      | GlobeDot \<Rightarrow> GlobeDot_update this)"

definition draw :: "RenderObject \<Rightarrow> Surface \<Rightarrow> RenderObject \<times> Surface" where
  "draw this cv =
     (case cls this of
        RenderObject \<Rightarrow> RenderObject_draw this cv
      | CircleDot \<Rightarrow> CircleDot_draw this cv
      | SlantedCircleDot \<Rightarrow> SlantedCircleDot_draw this cv
      | GlobeDot \<Rightarrow> GlobeDot_draw this cv)"

subsection \<open>The life of one object\<close>

text \<open>
  The methods that the scene calls on an object it has constructed, and a run of such
  calls. \<open>Draw\<close> carries the canvas drawn on; \<open>ResizeUpdate\<close> carries the arguments and
  the two random draws.
\<close>

datatype method_call =
    Update
  | Draw Surface
  | ResizeUpdate jsval jsval real real

fun call :: "method_call \<Rightarrow> RenderObject \<Rightarrow> RenderObject" where
  "call Update this = update this"
| "call (Draw cv) this = fst (draw this cv)"
| "call (ResizeUpdate h w r1 r2) this = resizeUpdate h w r1 r2 this"

section \<open>The scene\<close>

text \<open>
  What the worker takes from its surroundings: the results of \<open>Math.random()\<close>, as the
  stream of the draws still to come, and the number of callbacks handed to
  \<open>requestAnimationFrame\<close>. When the browser runs them is outside the source.
\<close>

record env =
  random :: "nat \<Rightarrow> real"
  frameRequests :: nat

definition skip_random :: "nat \<Rightarrow> env \<Rightarrow> env" where
  "skip_random k e = e\<lparr>random := (\<lambda>n. random e (n + k))\<rparr>"

definition requestAnimationFrame :: "env \<Rightarrow> env" where
  "requestAnimationFrame e = e\<lparr>frameRequests := Suc (frameRequests e)\<rparr>"

text \<open>\<open>new this.RenderObjectClass(this.ctx, width, height)\<close>, with the draws it consumes.\<close>

definition construct :: "RenderObjectClass \<Rightarrow> jsval \<Rightarrow> jsval \<Rightarrow> env \<Rightarrow> RenderObject \<times> env" where
  "construct c w h e =
     (case c of
        RenderObject \<Rightarrow> (RenderObject_new w h (random e 0) (random e 1), skip_random 2 e)
      | CircleDot \<Rightarrow>
          (CircleDot_new w h (random e 0) (random e 1) (random e 2), skip_random 3 e)
      | SlantedCircleDot \<Rightarrow>
          (SlantedCircleDot_new w h (random e 0) (random e 1) (random e 2), skip_random 3 e)
      | GlobeDot \<Rightarrow>
          (GlobeDot_new w h (random e 0) (random e 1) (random e 2) (random e 3) (random e 4)
             (random e 5) (random e 6), skip_random 7 e))"

text \<open>
  The scene's properties \<open>width\<close> and \<open>height\<close> are the fields \<open>scene_width\<close> and
  \<open>scene_height\<close>; \<open>canvas.particle\<close> is the field \<open>particle\<close>; \<open>ctx\<close> is the context
  of \<open>canvas\<close>.
\<close>

record CanvasScene =
  lastDrawTime :: jsval
  fps :: jsval
  canvas :: Surface
  particle :: Surface
  renderObjectCount :: jsval
  RenderObjectClass :: RenderObjectClass
  renderObjects :: "RenderObject list"
  scene_width :: jsval
  scene_height :: jsval

definition particleCanvas :: Surface where
  "particleCanvas =
     (let particleSize = Fin 10;
          cv = \<lparr>canvas_width = particleSize, canvas_height = particleSize, calls = []\<rparr>;
          cv = ctx_call BeginPath cv;
          cv = ctx_call (Arc (particleSize / Fin 2) (particleSize / Fin 2) (particleSize / Fin 2)
                             (Fin 0) (Fin 2 * Math_PI)) cv;
          cv = ctx_call Fill cv
      in cv)"

text \<open>The constructor: an argument that is \<open>undefined\<close> takes its default.\<close>

definition CanvasScene_new ::
  "Surface \<Rightarrow> jsval \<Rightarrow> RenderObjectClass option \<Rightarrow> CanvasScene" where
  "CanvasScene_new cv count c =
     \<lparr>lastDrawTime = Fin 0, fps = Fin 0, canvas = cv, particle = particleCanvas,
      renderObjectCount = (if count = Undefined then Fin 100 else count),
      RenderObjectClass = (case c of None \<Rightarrow> RenderObject | Some k \<Rightarrow> k),
      renderObjects = [], scene_width = Undefined, scene_height = Undefined\<rparr>"

definition CanvasScene_update :: "CanvasScene \<Rightarrow> CanvasScene" where
  "CanvasScene_update s = s\<lparr>renderObjects := map update (renderObjects s)\<rparr>"

definition clear :: "CanvasScene \<Rightarrow> CanvasScene" where
  "clear s =
     s\<lparr>canvas := ctx_call (ClearRect (Fin 0) (Fin 0) (scene_width s) (scene_height s)) (canvas s)\<rparr>"

fun draw_each :: "RenderObject list \<Rightarrow> Surface \<Rightarrow> RenderObject list \<times> Surface" where
  "draw_each [] cv = ([], cv)"
| "draw_each (ob # obs) cv =
     (case draw ob cv of (ob', cv') \<Rightarrow>
        (case draw_each obs cv' of (obs', cv'') \<Rightarrow> (ob' # obs', cv'')))"

definition CanvasScene_draw :: "CanvasScene \<Rightarrow> CanvasScene" where
  "CanvasScene_draw s =
     (case draw_each (renderObjects s) (canvas s) of
        (obs, cv) \<Rightarrow> s\<lparr>renderObjects := obs, canvas := cv\<rparr>)"

definition drawFps :: "CanvasScene \<Rightarrow> CanvasScene" where
  "drawFps s = s\<lparr>canvas := ctx_call (FillText (fps s) (Fin 10) (Fin 10)) (canvas s)\<rparr>"

text \<open>
  One frame tick; \<open>now\<close> is the result of \<open>performance.now()\<close>. The frame rate is truncated
  to an integer by \<open>~~\<close>, so the difference and the quotient under it are rounded to
  doubles as the code computes them.
\<close>

definition animate :: "real \<Rightarrow> CanvasScene \<Rightarrow> env \<Rightarrow> CanvasScene \<times> env" where
  "animate now s e =
     (let lastDrawTime' = Fin now;
          s = s\<lparr>fps := bitwise_not (bitwise_not
                         (js_round (Fin 1000 / js_round (lastDrawTime' - lastDrawTime s))))\<rparr>;
          s = s\<lparr>lastDrawTime := lastDrawTime'\<rparr>;
          e = requestAnimationFrame e;
          s = CanvasScene_update s;
          s = clear s;
          s = CanvasScene_draw s;
          s = drawFps s
      in (s, e))"

text \<open>
  The loop of \<open>init\<close>, \<open>while (i--) push(new ...)\<close>: it tests \<open>i\<close>, decrements it and
  constructs one object. A count that never reaches 0 keeps it running, so the result is
  an option: \<open>None\<close> when the loop does not end.
\<close>

partial_function (option) init_loop ::
  "jsval \<Rightarrow> CanvasScene \<Rightarrow> env \<Rightarrow> (CanvasScene \<times> env) option" where
  "init_loop i s e =
     (if truthy i then
        (case construct (RenderObjectClass s) (scene_width s) (scene_height s) e of
           (ob, e') \<Rightarrow> init_loop (i - Fin 1) (s\<lparr>renderObjects := renderObjects s @ [ob]\<rparr>) e')
      else Some (s, e))"

definition init :: "CanvasScene \<Rightarrow> env \<Rightarrow> (CanvasScene \<times> env) option" where
  "init s e = init_loop (renderObjectCount s) s e"

fun resizeUpdate_each ::
  "jsval \<Rightarrow> jsval \<Rightarrow> RenderObject list \<Rightarrow> env \<Rightarrow> RenderObject list \<times> env" where
  "resizeUpdate_each h w [] e = ([], e)"
| "resizeUpdate_each h w (ob # obs) e =
     (case resizeUpdate_each h w obs (skip_random 2 e) of
        (obs', e') \<Rightarrow> (resizeUpdate h w (random e 0) (random e 1) ob # obs', e'))"

definition resize ::
  "jsval \<Rightarrow> jsval \<Rightarrow> jsval \<Rightarrow> CanvasScene \<Rightarrow> env \<Rightarrow> CanvasScene \<times> env" where
  "resize h w devicePixelRatio s e =
     (let s = s\<lparr>scene_width := w\<rparr>;
          s = s\<lparr>scene_height := h\<rparr>;
          s = (if js_gt devicePixelRatio (Fin 1) then
                 (let s = s\<lparr>canvas := (canvas s)\<lparr>canvas_width := w * devicePixelRatio\<rparr>\<rparr>;
                      s = s\<lparr>canvas := (canvas s)\<lparr>canvas_height := h * devicePixelRatio\<rparr>\<rparr>
                  in s\<lparr>canvas := ctx_call (Scale devicePixelRatio devicePixelRatio) (canvas s)\<rparr>)
               else
                 (let s = s\<lparr>canvas := (canvas s)\<lparr>canvas_width := scene_width s\<rparr>\<rparr>
                  in s\<lparr>canvas := (canvas s)\<lparr>canvas_height := scene_height s\<rparr>\<rparr>))
      in (case resizeUpdate_each (scene_height s) (scene_width s) (renderObjects s) e of
            (obs, e') \<Rightarrow> (s\<lparr>renderObjects := obs\<rparr>, e')))"

definition start :: "CanvasScene \<Rightarrow> env \<Rightarrow> (CanvasScene \<times> env) option" where
  "start s e =
     (case init s e of
        None \<Rightarrow> None
      | Some (s', e') \<Rightarrow> Some (s', requestAnimationFrame e'))"

text \<open>Consecutive frame ticks, at the given times.\<close>

fun ticks :: "real list \<Rightarrow> CanvasScene \<Rightarrow> env \<Rightarrow> CanvasScene \<times> env" where
  "ticks [] s e = (s, e)"
| "ticks (now # nows) s e = (case animate now s e of (s', e') \<Rightarrow> ticks nows s' e')"

section \<open>The message handler\<close>

text \<open>
  The worker holds \<open>canvasScene\<close>, \<open>null\<close> at first. A message is an object with a
  \<open>type\<close>; the canvas of an INIT message may be missing. A handler run either completes
  or ends in a TypeError: that of a method call on \<open>null\<close>, or, in the constructor of the
  scene, that of \<open>this.canvas.particle = ...\<close> on a missing canvas, which is thrown before
  \<open>canvasScene\<close> is assigned. The fault leaves the worker as it was at that point, and the
  next message is handled all the same. \<open>None\<close> is a handler that does not return.
\<close>

datatype message =
    INIT "Surface option" jsval
  | START
  | RESIZE jsval jsval jsval
  | Other

datatype outcome = Completed | TypeError

record Worker =
  canvasScene :: "CanvasScene option"
  environment :: env

definition onmessage :: "message \<Rightarrow> Worker \<Rightarrow> (outcome \<times> Worker) option" where
  "onmessage evt wk =
     (case evt of
        INIT cv count \<Rightarrow>
          (case cv of
             None \<Rightarrow> Some (TypeError, wk)
           | Some cv' \<Rightarrow>
               Some (Completed,
                     wk\<lparr>canvasScene := Some (CanvasScene_new cv' count (Some GlobeDot))\<rparr>))
      | START \<Rightarrow>
          (case canvasScene wk of
             None \<Rightarrow> Some (TypeError, wk)
           | Some s \<Rightarrow>
               (case start s (environment wk) of
                  None \<Rightarrow> None
                | Some (s', e') \<Rightarrow>
                    Some (Completed, wk\<lparr>canvasScene := Some s', environment := e'\<rparr>)))
      | RESIZE innerHeight innerWidth devicePixelRatio \<Rightarrow>
          (case canvasScene wk of
             None \<Rightarrow> Some (TypeError, wk)
           | Some s \<Rightarrow>
               (case resize innerHeight innerWidth devicePixelRatio s (environment wk) of
                  (s', e') \<Rightarrow>
                    Some (Completed, wk\<lparr>canvasScene := Some s', environment := e'\<rparr>)))
      | Other \<Rightarrow> Some (Completed, wk))"

text \<open>A sequence of messages, handled one after the other.\<close>

fun process :: "message list \<Rightarrow> Worker \<Rightarrow> (outcome list \<times> Worker) option" where
  "process [] wk = Some ([], wk)"
| "process (evt # evts) wk =
     (case onmessage evt wk of
        None \<Rightarrow> None
      | Some (r, wk') \<Rightarrow>
          (case process evts wk' of
             None \<Rightarrow> None
           | Some (rs, wk'') \<Rightarrow> Some (r # rs, wk'')))"

section \<open>Invariants\<close>

text \<open>What the constructor of a SlantedCircleDot establishes and every method keeps.\<close>

definition slanted_inv :: "RenderObject \<Rightarrow> bool" where
  "slanted_inv ob \<longleftrightarrow> cls ob = SlantedCircleDot \<and> phi ob = Fin 45
     \<and> projection_center_x ob = width ob / Fin 2 \<and> projection_center_y ob = height ob / Fin 2"

text \<open>
  A GlobeDot constructed while the scene has no width and height: its dimensions are
  \<open>undefined\<close> and its position is NaN.
\<close>

definition unsized :: "RenderObject \<Rightarrow> bool" where
  "unsized ob \<longleftrightarrow> cls ob = GlobeDot \<and> width ob = Undefined \<and> height ob = Undefined
     \<and> x ob = NaN \<and> y ob = NaN \<and> z ob = NaN"

text \<open>The scene of a worker that has handled no RESIZE message.\<close>

definition unsized_scene :: "CanvasScene \<Rightarrow> bool" where
  "unsized_scene s \<longleftrightarrow> RenderObjectClass s = GlobeDot \<and> scene_width s = Undefined
     \<and> scene_height s = Undefined \<and> list_all unsized (renderObjects s)"

section \<open>Properties of the number model\<close>

lemma times_jsval_commute: "(a::jsval) * b = b * a"
  by (cases a; cases b) (simp_all add: mult.commute)

lemma plus_one_ToNumber: "v + Fin 1 = ToNumber v + Fin 1"
  by (cases v) simp_all

lemma ToNumber_plus_assoc: "ToNumber v + Fin a + Fin b = ToNumber v + Fin (a + b)"
  by (cases v) (simp_all add: add.assoc)

lemma cos_full_turn: "Math_cos ((ToNumber v + Fin 360) * Math_PI / Fin 180) = Math_cos (v * Math_PI / Fin 180)"
proof (cases v)
  case (Fin a)
  have e: "(a + 360) * pi / 180 = a * pi / 180 + 2 * pi" by (simp add: algebra_simps)
  have "cos ((a + 360) * pi / 180) = cos (a * pi / 180 + 2 * pi)" by (simp only: e)
  also have "\<dots> = cos (a * pi / 180)" by (rule cos_periodic)
  finally have t: "cos ((a + 360) * pi / 180) = cos (a * pi / 180)" .
  have l: "(ToNumber (Fin a) + Fin 360) * Fin pi / Fin 180 = Fin ((a + 360) * pi / 180)" by simp
  have r: "Fin a * Fin pi / Fin 180 = Fin (a * pi / 180)" by simp
  show ?thesis by (simp only: Fin Math_PI_def l r Math_cos.simps t)
qed (simp_all add: Math_PI_def)

lemma sin_full_turn: "Math_sin ((ToNumber v + Fin 360) * Math_PI / Fin 180) = Math_sin (v * Math_PI / Fin 180)"
proof (cases v)
  case (Fin a)
  have e: "(a + 360) * pi / 180 = a * pi / 180 + 2 * pi" by (simp add: algebra_simps)
  have "sin ((a + 360) * pi / 180) = sin (a * pi / 180 + 2 * pi)" by (simp only: e)
  also have "\<dots> = sin (a * pi / 180)" by (rule sin_periodic)
  finally have t: "sin ((a + 360) * pi / 180) = sin (a * pi / 180)" .
  have l: "(ToNumber (Fin a) + Fin 360) * Fin pi / Fin 180 = Fin ((a + 360) * pi / 180)" by simp
  have r: "Fin a * Fin pi / Fin 180 = Fin (a * pi / 180)" by simp
  show ?thesis by (simp only: Fin Math_PI_def l r Math_sin.simps t)
qed (simp_all add: Math_PI_def)

lemma sin_sin_lower: "- 1 \<le> sin (p::real) * sin t"
proof -
  have "\<bar>sin p * sin t\<bar> = \<bar>sin p\<bar> * \<bar>sin t\<bar>" by (rule abs_mult)
  also have "\<dots> \<le> 1 * 1"
    by (rule mult_mono) simp_all
  finally show ?thesis by linarith
qed

lemma depth_nonneg:
  assumes "0 < (w::real)"
  shows "0 \<le> w / 3 * sin p * sin t + w / 3"
proof -
  have "w / 3 * sin p * sin t + w / 3 = w / 3 * (sin p * sin t + 1)"
    by (simp add: algebra_simps)
  moreover have "0 \<le> w / 3 * (sin p * sin t + 1)"
    using assms sin_sin_lower [of p t] by (intro mult_nonneg_nonneg) simp_all
  ultimately show ?thesis by simp
qed

section \<open>Constructors and resizeUpdate\<close>

lemma CircleDot_new_fields:
  "cls (CircleDot_new w h r1 r2 r3) = CircleDot"
  "width (CircleDot_new w h r1 r2 r3) = w"
  "height (CircleDot_new w h r1 r2 r3) = h"
  "radius (CircleDot_new w h r1 r2 r3) = w / Fin 4"
  "angle (CircleDot_new w h r1 r2 r3) = Math_floor (Fin (r3 * 360))"
  by (simp_all add: CircleDot_new_def RenderObject_constructor_def new_object_def)

lemma SlantedCircleDot_new_fields:
  "cls (SlantedCircleDot_new w h r1 r2 r3) = SlantedCircleDot"
  "width (SlantedCircleDot_new w h r1 r2 r3) = w"
  "height (SlantedCircleDot_new w h r1 r2 r3) = h"
  "phi (SlantedCircleDot_new w h r1 r2 r3) = Fin 45"
  "theta (SlantedCircleDot_new w h r1 r2 r3) = Math_floor (Fin (r3 * 360))"
  "projection_center_x (SlantedCircleDot_new w h r1 r2 r3) = w / Fin 2"
  "projection_center_y (SlantedCircleDot_new w h r1 r2 r3) = h / Fin 2"
  by (simp_all add: SlantedCircleDot_new_def RenderObject_constructor_def new_object_def)

lemma GlobeDot_new_fields:
  "cls (GlobeDot_new w h r1 r2 r3 r4 r5 r6 r7) = GlobeDot"
  "theta (GlobeDot_new w h r1 r2 r3 r4 r5 r6 r7) = Fin (r6 * 2 * pi)"
  "phi (GlobeDot_new w h r1 r2 r3 r4 r5 r6 r7) = Math_acos (Fin (r7 * 2 - 1))"
  "width (GlobeDot_new w h r1 r2 r3 r4 r5 r6 r7) = w"
  "height (GlobeDot_new w h r1 r2 r3 r4 r5 r6 r7) = h"
  "projection_center_x (GlobeDot_new w h r1 r2 r3 r4 r5 r6 r7) = w / Fin 2"
  "projection_center_y (GlobeDot_new w h r1 r2 r3 r4 r5 r6 r7) = h / Fin 2"
  "x (GlobeDot_new w h r1 r2 r3 r4 r5 r6 r7) = Fin (r3 - 1/2) * w"
  "y (GlobeDot_new w h r1 r2 r3 r4 r5 r6 r7) = Fin (r4 - 1/2) * h"
  "z (GlobeDot_new w h r1 r2 r3 r4 r5 r6 r7) = Fin (r5 - 1/2) * h"
  by (simp_all add: GlobeDot_new_def RenderObject_constructor_def new_object_def Math_PI_def)

lemma resizeUpdate_keeps_radius: "radius (resizeUpdate h w r1 r2 ob) = radius ob"
  by (simp add: resizeUpdate_def Let_def)

lemma resizeUpdate_fields:
  "height (resizeUpdate h w r1 r2 ob) = h"
  "width (resizeUpdate h w r1 r2 ob) = w"
  "x (resizeUpdate h w r1 r2 ob) = Fin r1 * w"
  "y (resizeUpdate h w r1 r2 ob) = Fin r2 * h"
  "perspective (resizeUpdate h w r1 r2 ob) = w * Fin 0.8"
  "projection_center_x (resizeUpdate h w r1 r2 ob) = w / Fin 2"
  "projection_center_y (resizeUpdate h w r1 r2 ob) = h / Fin 2"
  "cls (resizeUpdate h w r1 r2 ob) = cls ob"
  by (simp_all add: resizeUpdate_def Let_def)

section \<open>SlantedCircleDot: the projection\<close>

lemma slanted_inv_new: "slanted_inv (SlantedCircleDot_new w h r1 r2 r3)"
  by (simp add: slanted_inv_def SlantedCircleDot_new_def RenderObject_constructor_def new_object_def)

lemma slanted_inv_call: "slanted_inv ob \<Longrightarrow> slanted_inv (call c ob)"
  by (cases c)
    (simp_all add: slanted_inv_def update_def draw_def SlantedCircleDot_update_def
      SlantedCircleDot_draw_def SlantedCircleDot_project_def resizeUpdate_def Let_def)

lemma slanted_inv_fold: "slanted_inv ob \<Longrightarrow> slanted_inv (fold call cs ob)"
  by (induction cs arbitrary: ob) (simp_all add: slanted_inv_call)

text \<open>
  C1. Take a SlantedCircleDot constructed for any width and height and put through any
  run of \<open>update\<close>, \<open>draw\<close> and \<open>resizeUpdate\<close> calls, and let \<open>w\<close> and \<open>h\<close> be its
  current width and height. Its \<open>phi\<close> is 45, and \<open>project()\<close> passes it to the sine as
  it is, in radians; \<open>perspective\<close> becomes \<open>0.8 * w\<close>, \<open>scaleProjected\<close> becomes
  \<open>perspective / (perspective + z)\<close>, \<open>xProjected\<close> becomes \<open>x * scaleProjected + w / 2\<close> and
  \<open>yProjected\<close> becomes \<open>y * scaleProjected + (h / 2) / 2\<close>: the offset in y is half the
  stored centre, the offset in x the whole of it.
\<close>

theorem SlantedCircleDot_project_formulas:
  "let this = fold call cs (SlantedCircleDot_new w h r1 r2 r3);
       p = SlantedCircleDot_project this
   in phi this = Fin 45
    \<and> Math_sin (phi this) = Fin (sin 45)
    \<and> x p = width this / Fin 3 * Math_sin (Fin 45) * Math_cos (theta this)
    \<and> y p = height this / Fin 2 * Math_sin (Fin 45)
    \<and> z p = width this / Fin 3 * Math_sin (Fin 45) * Math_sin (theta this) + width this / Fin 3
    \<and> perspective p = Fin 0.8 * width this
    \<and> scaleProjected p = perspective p / (perspective p + z p)
    \<and> xProjected p = x p * scaleProjected p + width this / Fin 2
    \<and> yProjected p = y p * scaleProjected p + height this / Fin 2 / Fin 2
    \<and> width p = width this \<and> height p = height this"
proof -
  have "slanted_inv (fold call cs (SlantedCircleDot_new w h r1 r2 r3))"
    by (rule slanted_inv_fold [OF slanted_inv_new])
  then show ?thesis
    by (simp add: Let_def slanted_inv_def SlantedCircleDot_project_def
        times_jsval_commute [of "Fin (4 / 5)"])
qed

section \<open>GlobeDot: the angles\<close>

lemma phi_call_GlobeDot:
  "cls ob = GlobeDot \<Longrightarrow> cls (call c ob) = GlobeDot \<and> phi (call c ob) = phi ob"
  by (cases c)
    (simp_all add: update_def draw_def GlobeDot_update_def GlobeDot_draw_def
      GlobeDot_project_def resizeUpdate_def Let_def)

lemma phi_fold_GlobeDot:
  "cls ob = GlobeDot \<Longrightarrow> cls (fold call cs ob) = GlobeDot \<and> phi (fold call cs ob) = phi ob"
proof (induction cs arbitrary: ob)
  case Nil
  then show ?case by simp
next
  case (Cons c cs)
  from phi_call_GlobeDot [OF Cons.prems, of c] Cons.IH [of "call c ob"]
  show ?case by simp
qed

lemma GlobeDot_update_pow:
  "theta ob = Fin t \<Longrightarrow> (GlobeDot_update ^^ n) ob = ob\<lparr>theta := Fin (t + real n * 0.01)\<rparr>"
proof (induction n)
  case 0
  then show ?case by simp
next
  case (Suc n)
  then show ?case by (simp add: GlobeDot_update_def algebra_simps)
qed

lemma update_pow_CircleDot:
  "cls ob = CircleDot \<Longrightarrow> angle ob = Fin a \<Longrightarrow>
   (update ^^ n) ob = ob\<lparr>angle := Fin (a + real n)\<rparr>"
proof (induction n)
  case 0
  then show ?case by simp
next
  case (Suc n)
  then show ?case by (simp add: update_def CircleDot_update_def algebra_simps)
qed

lemma update_pow_SlantedCircleDot:
  "cls ob = SlantedCircleDot \<Longrightarrow> theta ob = Fin t \<Longrightarrow>
   (update ^^ n) ob = ob\<lparr>theta := Fin (t + real n * 0.01)\<rparr>"
proof (induction n)
  case 0
  then show ?case by simp
next
  case (Suc n)
  then show ?case by (simp add: update_def SlantedCircleDot_update_def algebra_simps)
qed

lemma update_pow_GlobeDot:
  "cls ob = GlobeDot \<Longrightarrow> theta ob = Fin t \<Longrightarrow>
   (update ^^ n) ob = ob\<lparr>theta := Fin (t + real n * 0.01)\<rparr>"
proof (induction n)
  case 0
  then show ?case by simp
next
  case (Suc n)
  then show ?case by (simp add: update_def GlobeDot_update_def algebra_simps)
qed

text \<open>
  C2. With the sixth and seventh draws of the GlobeDot constructor \<open>u1\<close> and \<open>u2\<close> in
  \<open>[0, 1)\<close>: \<open>theta\<close> is \<open>u1 * 2\<pi>\<close> and lies in \<open>[0, 2\<pi>)\<close>; \<open>phi\<close> is
  \<open>acos (2 * u2 - 1)\<close>, lies in \<open>[0, \<pi>]\<close> and has cosine \<open>2 * u2 - 1\<close>. \<open>update()\<close> leaves
  \<open>phi\<close> alone and adds 0.01 to \<open>theta\<close>; no run of method calls changes \<open>phi\<close>, and
  after \<open>n\<close> updates \<open>theta\<close> is \<open>u1 * 2\<pi> + n * 0.01\<close>.
\<close>

theorem GlobeDot_angles:
  assumes "0 \<le> u1" "u1 < 1" "0 \<le> u2" "u2 < 1"
  shows "let g = GlobeDot_new w h r1 r2 r3 r4 r5 u1 u2 in
           theta g = Fin (u1 * 2 * pi) \<and> 0 \<le> u1 * 2 * pi \<and> u1 * 2 * pi < 2 * pi
         \<and> phi g = Fin (arccos (2 * u2 - 1))
         \<and> 0 \<le> arccos (2 * u2 - 1) \<and> arccos (2 * u2 - 1) \<le> pi
         \<and> cos (arccos (2 * u2 - 1)) = 2 * u2 - 1
         \<and> phi (GlobeDot_update ob) = phi ob
         \<and> theta (GlobeDot_update ob) = theta ob + Fin 0.01
         \<and> phi (fold call cs g) = phi g
         \<and> phi ((update ^^ n) g) = phi g
         \<and> theta ((update ^^ n) g) = Fin (u1 * 2 * pi + real n * 0.01)"
proof -
  let ?g = "GlobeDot_new w h r1 r2 r3 r4 r5 u1 u2"
  have r: "- 1 \<le> 2 * u2 - 1" "2 * u2 - 1 \<le> 1" using assms by simp_all
  have th: "theta ?g = Fin (u1 * 2 * pi)" by (simp add: GlobeDot_new_fields)
  have ph: "phi ?g = Fin (arccos (2 * u2 - 1))"
    using r by (simp add: GlobeDot_new_fields mult.commute)
  have pw: "(update ^^ n) ?g = (GlobeDot_update ^^ n) ?g"
  proof (induction n)
    case 0 show ?case by simp
  next
    case (Suc n)
    have "cls ((GlobeDot_update ^^ n) ?g) = GlobeDot"
      by (simp add: GlobeDot_update_pow [OF th] GlobeDot_new_fields)
    with Suc show ?case by (simp add: update_def)
  qed
  have b1: "0 \<le> u1 * 2 * pi" using assms by simp
  have b2: "u1 * 2 * pi < 2 * pi" using assms by simp
  have c1: "0 \<le> arccos (2 * u2 - 1)" using r by (rule arccos_lbound)
  have c2: "arccos (2 * u2 - 1) \<le> pi" using r by (rule arccos_ubound)
  have c3: "cos (arccos (2 * u2 - 1)) = 2 * u2 - 1" using r by (rule cos_arccos)
  have f: "phi (fold call cs ?g) = phi ?g"
    using phi_fold_GlobeDot [of ?g cs] by (simp add: GlobeDot_new_fields)
  have u: "phi (GlobeDot_update ob) = phi ob" "theta (GlobeDot_update ob) = theta ob + Fin 0.01"
    by (simp_all add: GlobeDot_update_def)
  have p1: "phi ((update ^^ n) ?g) = phi ?g"
    by (simp add: pw GlobeDot_update_pow [OF th])
  have p2: "theta ((update ^^ n) ?g) = Fin (u1 * 2 * pi + real n * 0.01)"
    by (simp add: pw GlobeDot_update_pow [OF th])
  show ?thesis
    unfolding Let_def using th b1 b2 ph c1 c2 c3 f u p1 p2 by blast
qed

theorem GlobeDot_angles_witness:
  "(0::real) \<le> 1/2 \<and> (1/2::real) < 1 \<and> (0::real) \<le> 1/4 \<and> (1/4::real) < 1
 \<and> (let g = GlobeDot_new (Fin 400) (Fin 300) (1/2) (1/2) (1/2) (1/2) (1/2) (1/2) (1/4) in
           theta g = Fin (1/2 * 2 * pi) \<and> 0 \<le> 1/2 * 2 * pi \<and> 1/2 * 2 * pi < 2 * pi
         \<and> phi g = Fin (arccos (2 * (1/4) - 1))
         \<and> 0 \<le> arccos (2 * (1/4) - 1) \<and> arccos (2 * (1/4) - 1) \<le> pi
         \<and> cos (arccos (2 * (1/4) - 1)) = 2 * (1/4) - 1
         \<and> phi (GlobeDot_update g) = phi g
         \<and> theta (GlobeDot_update g) = theta g + Fin 0.01
         \<and> phi (fold call [Update, ResizeUpdate (Fin 600) (Fin 800) (1/2) (1/2), Update] g) = phi g
         \<and> phi ((update ^^ 3) g) = phi g
         \<and> theta ((update ^^ 3) g) = Fin (1/2 * 2 * pi + real 3 * 0.01))"
proof -
  have h: "(0::real) \<le> 1/2" "(1/2::real) < 1" "(0::real) \<le> 1/4" "(1/4::real) < 1"
    by simp_all
  note c = GlobeDot_angles [OF h, of "Fin 400" "Fin 300" "1/2" "1/2" "1/2" "1/2" "1/2"
      "GlobeDot_new (Fin 400) (Fin 300) (1/2) (1/2) (1/2) (1/2) (1/2) (1/2) (1/4)"
      "[Update, ResizeUpdate (Fin 600) (Fin 800) (1/2) (1/2), Update]" 3]
  from h c show ?thesis unfolding Let_def by blast
qed

section \<open>CircleDot: resizing and the period of the orbit\<close>



lemma CircleDot_update_pow:
  "0 < n \<Longrightarrow> (CircleDot_update ^^ n) ob = ob\<lparr>angle := ToNumber (angle ob) + Fin (real n)\<rparr>"
proof (induction n)
  case 0
  then show ?case by simp
next
  case (Suc n)
  show ?case
  proof (cases "n = 0")
    case True
    then show ?thesis by (simp add: CircleDot_update_def plus_one_ToNumber [symmetric])
  next
    case False
    then have IH: "(CircleDot_update ^^ n) ob = ob\<lparr>angle := ToNumber (angle ob) + Fin (real n)\<rparr>"
      using Suc.IH by simp
    have "(CircleDot_update ^^ Suc n) ob = CircleDot_update ((CircleDot_update ^^ n) ob)"
      by simp
    also have "\<dots> = ob\<lparr>angle := ToNumber (angle ob) + Fin (real n) + Fin 1\<rparr>"
      by (simp only: IH) (simp add: CircleDot_update_def)
    also have "\<dots> = ob\<lparr>angle := ToNumber (angle ob) + Fin (real n + 1)\<rparr>"
      by (simp only: ToNumber_plus_assoc)
    finally have "(CircleDot_update ^^ Suc n) ob
        = ob\<lparr>angle := ToNumber (angle ob) + Fin (real n + 1)\<rparr>" .
    moreover have "real n + 1 = real (Suc n)" by simp
    ultimately show ?thesis by (simp only:)
  qed
qed

text \<open>
  C4. For every CircleDot, whatever its angle, radius, width and height: \<open>update()\<close> adds 1
  to the angle, \<open>project()\<close> sets \<open>x = radius * cos (angle * \<pi> / 180) + width / 2\<close> and
  \<open>y = radius * sin (angle * \<pi> / 180) + height / 2\<close>, and the coordinates projected after
  360 updates are those projected before them. With finite numbers as reals the two are
  equal, not only close.
\<close>

theorem CircleDot_period_360:
  "x (CircleDot_project ((CircleDot_update ^^ 360) ob)) = x (CircleDot_project ob)
 \<and> y (CircleDot_project ((CircleDot_update ^^ 360) ob)) = y (CircleDot_project ob)
 \<and> angle (CircleDot_update ob) = angle ob + Fin 1
 \<and> x (CircleDot_project ob) = radius ob * Math_cos (angle ob * Math_PI / Fin 180) + width ob / Fin 2
 \<and> y (CircleDot_project ob) = radius ob * Math_sin (angle ob * Math_PI / Fin 180) + height ob / Fin 2"
proof -
  have "(0::nat) < 360" by simp
  from CircleDot_update_pow [OF this]
  have "(CircleDot_update ^^ 360) ob = ob\<lparr>angle := ToNumber (angle ob) + Fin (real 360)\<rparr>" .
  then have p: "(CircleDot_update ^^ 360) ob = ob\<lparr>angle := ToNumber (angle ob) + Fin 360\<rparr>"
    by (simp only: of_nat_numeral)
  have a: "x (CircleDot_project (ob\<lparr>angle := ToNumber (angle ob) + Fin 360\<rparr>)) = x (CircleDot_project ob)"
    by (simp add: CircleDot_project_def Let_def cos_full_turn)
  have b: "y (CircleDot_project (ob\<lparr>angle := ToNumber (angle ob) + Fin 360\<rparr>)) = y (CircleDot_project ob)"
    by (simp add: CircleDot_project_def Let_def sin_full_turn)
  have c: "angle (CircleDot_update ob) = angle ob + Fin 1"
    by (simp add: CircleDot_update_def)
  have d: "x (CircleDot_project ob) = radius ob * Math_cos (angle ob * Math_PI / Fin 180) + width ob / Fin 2"
    "y (CircleDot_project ob) = radius ob * Math_sin (angle ob * Math_PI / Fin 180) + height ob / Fin 2"
    by (simp_all add: CircleDot_project_def Let_def)
  show ?thesis by (simp only: p a b c d simp_thms)
qed

section \<open>Finite projections\<close>

lemma CircleDot_draw_finite:
  assumes "cls ob = CircleDot" "width ob = Fin w" "height ob = Fin h" "radius ob = Fin r"
    "angle ob = Fin a"
  shows "isFinite (x (fst (draw ob cv))) \<and> isFinite (y (fst (draw ob cv)))"
  using assms by (simp add: draw_def CircleDot_draw_def CircleDot_project_def Let_def Math_PI_def)

lemma SlantedCircleDot_draw_finite:
  assumes "cls ob = SlantedCircleDot" "width ob = Fin w" "height ob = Fin h" "0 < w"
    "phi ob = Fin p" "theta ob = Fin t"
    "projection_center_x ob = Fin cx" "projection_center_y ob = Fin cy"
  shows "isFinite (xProjected (fst (draw ob cv))) \<and> isFinite (yProjected (fst (draw ob cv)))
       \<and> (\<exists>zr. z (fst (draw ob cv)) = Fin zr \<and> 0 \<le> zr
            \<and> perspective (fst (draw ob cv)) + z (fst (draw ob cv)) = Fin (0.8 * w + zr))"
proof -
  let ?zr = "w / 3 * sin p * sin t + w / 3"
  have zr: "0 \<le> ?zr" using assms(4) by (rule depth_nonneg)
  then have nz: "w * 0.8 + ?zr \<noteq> 0" using assms(4) by simp
  have pr: "fst (draw ob cv) = SlantedCircleDot_project ob"
    using assms(1) by (simp add: draw_def SlantedCircleDot_draw_def Let_def)
  have zp: "z (SlantedCircleDot_project ob) = Fin ?zr"
    using assms by (simp add: SlantedCircleDot_project_def Let_def)
  have pp: "perspective (SlantedCircleDot_project ob) = Fin (w * 0.8)"
    using assms by (simp add: SlantedCircleDot_project_def Let_def)
  have sp: "scaleProjected (SlantedCircleDot_project ob) = Fin (w * 0.8 / (w * 0.8 + ?zr))"
    using assms nz by (simp add: SlantedCircleDot_project_def Let_def)
  have xp: "xProjected (SlantedCircleDot_project ob)
      = x (SlantedCircleDot_project ob) * scaleProjected (SlantedCircleDot_project ob) + Fin cx"
    and yp: "yProjected (SlantedCircleDot_project ob)
      = y (SlantedCircleDot_project ob) * scaleProjected (SlantedCircleDot_project ob) + Fin cy / Fin 2"
    and xx: "x (SlantedCircleDot_project ob) = Fin (w / 3 * sin p * cos t)"
    and yy: "y (SlantedCircleDot_project ob) = Fin (h / 2 * sin p)"
    using assms by (simp_all add: SlantedCircleDot_project_def Let_def)
  have "isFinite (xProjected (SlantedCircleDot_project ob))"
    by (simp only: xp xx sp) simp
  moreover have "isFinite (yProjected (SlantedCircleDot_project ob))"
    by (simp only: yp yy sp) simp
  moreover have "perspective (SlantedCircleDot_project ob) + z (SlantedCircleDot_project ob)
      = Fin (0.8 * w + ?zr)"
    by (simp only: pp zp) simp
  ultimately show ?thesis using zp zr unfolding pr by blast
qed

lemma GlobeDot_draw_finite:
  assumes "cls ob = GlobeDot" "width ob = Fin w" "0 < w"
    "phi ob = Fin p" "theta ob = Fin t"
    "projection_center_x ob = Fin cx" "projection_center_y ob = Fin cy"
  shows "isFinite (xProjected (fst (draw ob cv))) \<and> isFinite (yProjected (fst (draw ob cv)))
       \<and> (\<exists>zr. z (fst (draw ob cv)) = Fin zr \<and> 0 \<le> zr
            \<and> perspective (fst (draw ob cv)) + z (fst (draw ob cv)) = Fin (0.8 * w + zr))"
proof -
  let ?zr = "w / 3 * sin p * sin t + w / 3"
  have zr: "0 \<le> ?zr" using assms(3) by (rule depth_nonneg)
  then have nz: "w * 0.8 + ?zr \<noteq> 0" using assms(3) by simp
  have pr: "fst (draw ob cv) = GlobeDot_project ob"
    using assms(1) by (simp add: draw_def GlobeDot_draw_def Let_def)
  have zp: "z (GlobeDot_project ob) = Fin ?zr"
    using assms by (simp add: GlobeDot_project_def Let_def)
  have pp: "perspective (GlobeDot_project ob) = Fin (w * 0.8)"
    using assms by (simp add: GlobeDot_project_def Let_def)
  have sp: "scaleProjected (GlobeDot_project ob) = Fin (w * 0.8 / (w * 0.8 + ?zr))"
    using assms nz by (simp add: GlobeDot_project_def Let_def)
  have xp: "xProjected (GlobeDot_project ob)
      = x (GlobeDot_project ob) * scaleProjected (GlobeDot_project ob) + Fin cx"
    and yp: "yProjected (GlobeDot_project ob)
      = y (GlobeDot_project ob) * scaleProjected (GlobeDot_project ob) + Fin cy"
    and xx: "x (GlobeDot_project ob) = Fin (w / 3 * sin p * cos t)"
    and yy: "y (GlobeDot_project ob) = Fin (w / 3 * cos p)"
    using assms by (simp_all add: GlobeDot_project_def Let_def)
  have "isFinite (xProjected (GlobeDot_project ob))"
    by (simp only: xp xx sp) simp
  moreover have "isFinite (yProjected (GlobeDot_project ob))"
    by (simp only: yp yy sp) simp
  moreover have "perspective (GlobeDot_project ob) + z (GlobeDot_project ob)
      = Fin (0.8 * w + ?zr)"
    by (simp only: pp zp) simp
  ultimately show ?thesis using zp zr unfolding pr by blast
qed

text \<open>
  C5. Construct a CircleDot, a SlantedCircleDot or a GlobeDot for a finite width and
  height, both positive, the last draw of the GlobeDot in \<open>[0, 1)\<close>; call \<open>update()\<close> any
  number \<open>N\<close> of times and then \<open>draw()\<close>. The projected coordinates are finite numbers.
  For the two variants with depth, \<open>z\<close> is a finite number that is not negative, and the
  denominator \<open>perspective + z\<close> is at least \<open>0.8 * width\<close>, which is positive.
\<close>

theorem projected_coordinates_finite:
  assumes "0 < w" "0 < h" "0 \<le> r7" "r7 < 1"
  shows "(let p = fst (draw ((update ^^ N) (CircleDot_new (Fin w) (Fin h) r1 r2 r3)) cv)
          in isFinite (x p) \<and> isFinite (y p))
       \<and> (let p = fst (draw ((update ^^ N) (SlantedCircleDot_new (Fin w) (Fin h) r1 r2 r3)) cv)
          in isFinite (xProjected p) \<and> isFinite (yProjected p)
           \<and> (\<exists>zr. z p = Fin zr \<and> 0 \<le> zr \<and> perspective p + z p = Fin (0.8 * w + zr)
                   \<and> 0.8 * w \<le> 0.8 * w + zr \<and> 0 < 0.8 * w))
       \<and> (let p = fst (draw ((update ^^ N) (GlobeDot_new (Fin w) (Fin h) r1 r2 r3 r4 r5 r6 r7)) cv)
          in isFinite (xProjected p) \<and> isFinite (yProjected p)
           \<and> (\<exists>zr. z p = Fin zr \<and> 0 \<le> zr \<and> perspective p + z p = Fin (0.8 * w + zr)
                   \<and> 0.8 * w \<le> 0.8 * w + zr \<and> 0 < 0.8 * w))"
proof -
  let ?c = "CircleDot_new (Fin w) (Fin h) r1 r2 r3"
  let ?s = "SlantedCircleDot_new (Fin w) (Fin h) r1 r2 r3"
  let ?g = "GlobeDot_new (Fin w) (Fin h) r1 r2 r3 r4 r5 r6 r7"
  have pos: "0 < 0.8 * w" using assms(1) by simp
  have ca: "angle ?c = Fin (of_int \<lfloor>r3 * 360\<rfloor>)" by (simp add: CircleDot_new_fields)
  have cN: "(update ^^ N) ?c = ?c\<lparr>angle := Fin (of_int \<lfloor>r3 * 360\<rfloor> + real N)\<rparr>"
    by (rule update_pow_CircleDot [OF _ ca]) (simp add: CircleDot_new_fields)
  have A: "isFinite (x (fst (draw ((update ^^ N) ?c) cv)))
         \<and> isFinite (y (fst (draw ((update ^^ N) ?c) cv)))"
    unfolding cN
    by (rule CircleDot_draw_finite [where w = w and h = h and r = "w / 4"])
      (simp_all add: CircleDot_new_fields)
  have st: "theta ?s = Fin (of_int \<lfloor>r3 * 360\<rfloor>)" by (simp add: SlantedCircleDot_new_fields)
  have sN: "(update ^^ N) ?s = ?s\<lparr>theta := Fin (of_int \<lfloor>r3 * 360\<rfloor> + real N * 0.01)\<rparr>"
    by (rule update_pow_SlantedCircleDot [OF _ st]) (simp add: SlantedCircleDot_new_fields)
  have B0: "isFinite (xProjected (fst (draw ((update ^^ N) ?s) cv)))
         \<and> isFinite (yProjected (fst (draw ((update ^^ N) ?s) cv)))
         \<and> (\<exists>zr. z (fst (draw ((update ^^ N) ?s) cv)) = Fin zr \<and> 0 \<le> zr
              \<and> perspective (fst (draw ((update ^^ N) ?s) cv)) + z (fst (draw ((update ^^ N) ?s) cv))
                  = Fin (0.8 * w + zr))"
    unfolding sN
    by (rule SlantedCircleDot_draw_finite [where w = w and h = h and cx = "w / 2" and cy = "h / 2"])
      (use assms in \<open>simp_all add: SlantedCircleDot_new_fields\<close>)
  have gt: "theta ?g = Fin (r6 * 2 * pi)" by (simp add: GlobeDot_new_fields)
  have gp: "phi ?g = Fin (arccos (r7 * 2 - 1))"
    using assms by (simp add: GlobeDot_new_fields)
  have gN: "(update ^^ N) ?g = ?g\<lparr>theta := Fin (r6 * 2 * pi + real N * 0.01)\<rparr>"
    by (rule update_pow_GlobeDot [OF _ gt]) (simp add: GlobeDot_new_fields)
  have C0: "isFinite (xProjected (fst (draw ((update ^^ N) ?g) cv)))
         \<and> isFinite (yProjected (fst (draw ((update ^^ N) ?g) cv)))
         \<and> (\<exists>zr. z (fst (draw ((update ^^ N) ?g) cv)) = Fin zr \<and> 0 \<le> zr
              \<and> perspective (fst (draw ((update ^^ N) ?g) cv)) + z (fst (draw ((update ^^ N) ?g) cv))
                  = Fin (0.8 * w + zr))"
    unfolding gN
    by (rule GlobeDot_draw_finite [where w = w and cx = "w / 2" and cy = "h / 2"])
      (use assms gp in \<open>simp_all add: GlobeDot_new_fields\<close>)
  from B0 pos have B: "isFinite (xProjected (fst (draw ((update ^^ N) ?s) cv)))
         \<and> isFinite (yProjected (fst (draw ((update ^^ N) ?s) cv)))
         \<and> (\<exists>zr. z (fst (draw ((update ^^ N) ?s) cv)) = Fin zr \<and> 0 \<le> zr
              \<and> perspective (fst (draw ((update ^^ N) ?s) cv)) + z (fst (draw ((update ^^ N) ?s) cv))
                  = Fin (0.8 * w + zr) \<and> 0.8 * w \<le> 0.8 * w + zr \<and> 0 < 0.8 * w)"
    by auto
  from C0 pos have C: "isFinite (xProjected (fst (draw ((update ^^ N) ?g) cv)))
         \<and> isFinite (yProjected (fst (draw ((update ^^ N) ?g) cv)))
         \<and> (\<exists>zr. z (fst (draw ((update ^^ N) ?g) cv)) = Fin zr \<and> 0 \<le> zr
              \<and> perspective (fst (draw ((update ^^ N) ?g) cv)) + z (fst (draw ((update ^^ N) ?g) cv))
                  = Fin (0.8 * w + zr) \<and> 0.8 * w \<le> 0.8 * w + zr \<and> 0 < 0.8 * w)"
    by auto
  show ?thesis unfolding Let_def using A B C by (intro conjI) blast+
qed

theorem projected_coordinates_finite_witness:
  "(0::real) < 400 \<and> (0::real) < 300 \<and> (0::real) \<le> 1/2 \<and> (1/2::real) < 1
 \<and> (let p = fst (draw ((update ^^ 3) (CircleDot_new (Fin 400) (Fin 300) (1/2) (1/2) (1/2)))
                   \<lparr>canvas_width = Fin 400, canvas_height = Fin 300, calls = []\<rparr>)
          in isFinite (x p) \<and> isFinite (y p))
       \<and> (let p = fst (draw ((update ^^ 3) (SlantedCircleDot_new (Fin 400) (Fin 300) (1/2) (1/2) (1/2)))
                   \<lparr>canvas_width = Fin 400, canvas_height = Fin 300, calls = []\<rparr>)
          in isFinite (xProjected p) \<and> isFinite (yProjected p)
           \<and> (\<exists>zr. z p = Fin zr \<and> 0 \<le> zr \<and> perspective p + z p = Fin (0.8 * 400 + zr)
                   \<and> 0.8 * 400 \<le> 0.8 * 400 + zr \<and> (0::real) < 0.8 * 400))
       \<and> (let p = fst (draw ((update ^^ 3)
                     (GlobeDot_new (Fin 400) (Fin 300) (1/2) (1/2) (1/2) (1/2) (1/2) (1/2) (1/2)))
                   \<lparr>canvas_width = Fin 400, canvas_height = Fin 300, calls = []\<rparr>)
          in isFinite (xProjected p) \<and> isFinite (yProjected p)
           \<and> (\<exists>zr. z p = Fin zr \<and> 0 \<le> zr \<and> perspective p + z p = Fin (0.8 * 400 + zr)
                   \<and> 0.8 * 400 \<le> 0.8 * 400 + zr \<and> (0::real) < 0.8 * 400))"
proof -
  have h: "(0::real) < 400" "(0::real) < 300" "(0::real) \<le> 1/2" "(1/2::real) < 1"
    by simp_all
  note c = projected_coordinates_finite [OF h, of 3 "1/2" "1/2" "1/2"
      "\<lparr>canvas_width = Fin 400, canvas_height = Fin 300, calls = []\<rparr>" "1/2" "1/2" "1/2"]
  from h c show ?thesis by blast
qed

section \<open>Resizing the scene\<close>

lemma resizeUpdate_each_objects:
  "list_all2 (\<lambda>ob ob'. \<exists>r1 r2. ob' = resizeUpdate h w r1 r2 ob) obs
     (fst (resizeUpdate_each h w obs e))"
proof (induction obs arbitrary: e)
  case Nil
  show ?case by simp
next
  case (Cons ob obs)
  from Cons [of "skip_random 2 e"] show ?case
    by (auto simp: split_beta)
qed

lemma resizeUpdate_each_length: "length (fst (resizeUpdate_each h w obs e)) = length obs"
  using resizeUpdate_each_objects [of h w obs e] by (simp add: list_all2_lengthD)

lemma resizeUpdate_each_cls: "map cls (fst (resizeUpdate_each h w obs e)) = map cls obs"
proof (induction obs arbitrary: e)
  case Nil
  show ?case by simp
next
  case (Cons ob obs)
  from Cons [of "skip_random 2 e"] show ?case
    by (simp add: split_beta resizeUpdate_fields)
qed

lemma resize_low_density:
  "\<not> js_gt d (Fin 1) \<Longrightarrow>
   fst (resize h w d s e) =
     s\<lparr>scene_width := w, scene_height := h,
       canvas := (canvas s)\<lparr>canvas_width := w, canvas_height := h\<rparr>,
       renderObjects := fst (resizeUpdate_each h w (renderObjects s) e)\<rparr>"
  by (simp add: resize_def Let_def split_beta)

text \<open>
  C6. For every scene and all \<open>h\<close>, \<open>w\<close>: after \<open>resize(h, w, 1)\<close> the stored width and
  height and the canvas buffer dimensions are \<open>w\<close> and \<open>h\<close>; a second call with the same
  arguments leaves the canvas and every field of the scene but the objects as the first
  call left them. Neither call changes the number of objects or their classes: each
  object of the collection is the old one after \<open>resizeUpdate(h, w)\<close>.
\<close>

theorem resize_idempotent:
  "let s1 = fst (resize h w (Fin 1) s e);
       e1 = snd (resize h w (Fin 1) s e);
       s2 = fst (resize h w (Fin 1) s1 e1)
   in scene_width s1 = w \<and> scene_height s1 = h
    \<and> canvas_width (canvas s1) = w \<and> canvas_height (canvas s1) = h
    \<and> scene_width s2 = scene_width s1 \<and> scene_height s2 = scene_height s1
    \<and> canvas s2 = canvas s1
    \<and> s2 = s1\<lparr>renderObjects := renderObjects s2\<rparr>
    \<and> length (renderObjects s1) = length (renderObjects s)
    \<and> length (renderObjects s2) = length (renderObjects s)
    \<and> map cls (renderObjects s1) = map cls (renderObjects s)
    \<and> map cls (renderObjects s2) = map cls (renderObjects s)
    \<and> list_all2 (\<lambda>ob ob'. \<exists>r1 r2. ob' = resizeUpdate h w r1 r2 ob)
          (renderObjects s) (renderObjects s1)
    \<and> list_all2 (\<lambda>ob ob'. \<exists>r1 r2. ob' = resizeUpdate h w r1 r2 ob)
          (renderObjects s1) (renderObjects s2)"
proof -
  have d: "\<not> js_gt (Fin 1) (Fin 1)" by simp
  show ?thesis
    unfolding Let_def resize_low_density [OF d]
    by (simp add: resizeUpdate_each_length resizeUpdate_each_cls resizeUpdate_each_objects)
qed

section \<open>The frame rate\<close>

lemma trunc_to_int_of_int: "trunc_to_int (real_of_int k) = k"
  by (simp add: trunc_to_int_def)

lemma trunc_to_int_signed: "trunc_to_int (signed (a :: 32 word)) = sint a"
proof -
  have "(signed a :: real) = real_of_int (sint a)" by (rule of_int_sint [symmetric])
  then show ?thesis by (simp only: trunc_to_int_of_int)
qed

lemma bitwise_not_twice: "bitwise_not (bitwise_not v) = Fin (of_int (sint (ToInt32 v)))"
  by (simp add: bitwise_not_def trunc_to_int_signed)

lemma ToInt32_in_range:
  assumes "0 \<le> r" "r < 2 ^ 31"
  shows "sint (ToInt32 (Fin r)) = \<lfloor>r\<rfloor>"
proof -
  have lo: "- (2 ^ 31) \<le> \<lfloor>r\<rfloor>"
    using assms(1) by (smt (verit) zero_le_floor zero_le_power)
  have "\<lfloor>r\<rfloor> < 2 ^ 31" using assms(2) by (simp add: floor_less_iff)
  with lo have "signed_take_bit 31 \<lfloor>r\<rfloor> = \<lfloor>r\<rfloor>"
    by (intro signed_take_bit_int_eq_self) simp_all
  then show ?thesis using assms(1) by (simp add: trunc_to_int_def sint_sbintrunc')
qed

lemma animate_fps:
  "fps (fst (animate now s e))
     = bitwise_not (bitwise_not (js_round (Fin 1000 / js_round (Fin now - lastDrawTime s))))"
  "lastDrawTime (fst (animate now s e)) = Fin now"
  by (simp_all add: animate_def Let_def CanvasScene_update_def clear_def CanvasScene_draw_def
      drawFps_def split_beta)

lemma round_half_even_of_int: "round_half_even (of_int k) = k"
  by (simp add: round_half_even_def)

lemma round_half_even_nonneg: "0 \<le> r \<Longrightarrow> 0 \<le> round_half_even r"
  by (auto simp: round_half_even_def Let_def)

lemma round_double_nonneg:
  assumes "0 < r" "round_double r = Fin q"
  shows "0 \<le> q"
proof -
  let ?u = "(2::real) powi (max \<lfloor>log 2 \<bar>r\<bar>\<rfloor> (- 1022) - 52)"
  have u: "0 < ?u" by (rule zero_less_power_int) simp
  then have "0 \<le> r / ?u" using assms(1) by simp
  then have "0 \<le> round_half_even (r / ?u)" by (rule round_half_even_nonneg)
  then have "0 \<le> real_of_int (round_half_even (r / ?u)) * ?u" using u by simp
  moreover have "q = real_of_int (round_half_even (r / ?u)) * ?u"
    using assms by (simp add: round_double_def Let_def split: if_splits)
  ultimately show ?thesis by simp
qed

lemma floor_log2_eq:
  assumes "2 powi e \<le> (r::real)" "r < 2 powi (e + 1)"
  shows "\<lfloor>log 2 r\<rfloor> = e"
proof -
  have pos: "0 < r" using assms(1) by (smt (verit) zero_less_power_int)
  have a: "(2::real) powi e = 2 powr (of_int e)"
    using powr_real_of_int' [of "2::real" e] by simp
  have b: "(2::real) powi (e + 1) = 2 powr (of_int (e + 1))"
    using powr_real_of_int' [of "2::real" "e + 1"] by simp
  have "of_int e \<le> log 2 r" using assms(1) pos unfolding a by (simp add: le_log_iff)
  moreover have "log 2 r < of_int (e + 1)" using assms(2) pos unfolding b by (simp add: log_less_iff)
  ultimately show ?thesis by (simp add: floor_eq_iff)
qed

lemma round_double_in_binade:
  assumes "2 powi e \<le> \<bar>r\<bar>" "\<bar>r\<bar> < 2 powi (e + 1)" "- 1022 \<le> e"
  shows "round_double r =
     (let v = of_int (round_half_even (r / 2 powi (e - 52))) * 2 powi (e - 52)
      in if 2 ^ 1024 \<le> \<bar>v\<bar> then (if 0 < r then PInf else NInf) else Fin v)"
proof -
  have "r \<noteq> 0" using assms(1) by (smt (verit) zero_less_power_int abs_zero)
  moreover have "\<lfloor>log 2 \<bar>r\<bar>\<rfloor> = e" using assms(1,2) by (rule floor_log2_eq)
  ultimately show ?thesis using assms(3) by (simp add: round_double_def Let_def max_def)
qed

lemma round_double_16: "round_double 16 = Fin 16"
proof -
  have "round_double 16 =
     (let v = of_int (round_half_even (16 / 2 powi (4 - 52))) * 2 powi (4 - 52)
      in if 2 ^ 1024 \<le> \<bar>v\<bar> then (if 0 < (16::real) then PInf else NInf) else Fin v)"
    by (rule round_double_in_binade) simp_all
  moreover have "(16::real) / 2 powi (4 - 52) = of_int (2 ^ 52)"
    by (simp add: power_int_minus field_simps)
  ultimately show ?thesis
    by (simp only: Let_def round_half_even_of_int) (simp add: power_int_minus)
qed

lemma round_double_62_5: "round_double (125 / 2) = Fin (125 / 2)"
proof -
  have "round_double (125 / 2) =
     (let v = of_int (round_half_even (125 / 2 / 2 powi (5 - 52))) * 2 powi (5 - 52)
      in if 2 ^ 1024 \<le> \<bar>v\<bar> then (if 0 < (125 / 2 :: real) then PInf else NInf) else Fin v)"
    by (rule round_double_in_binade) simp_all
  moreover have "(125 / 2 :: real) / 2 powi (5 - 52) = of_int (125 * 2 ^ 46)"
    by (simp add: power_int_minus field_simps)
  ultimately show ?thesis
    by (simp only: Let_def round_half_even_of_int) (simp add: power_int_minus)
qed

lemma fps_positive_delta:
  assumes "lastDrawTime s = Fin t0" "round_double (t1 - t0) = Fin d" "0 < d"
    "round_double (1000 / d) = Fin q" "q < 2 ^ 31"
  shows "fps (fst (animate t1 s e)) = Fin (of_int \<lfloor>q\<rfloor>)"
proof -
  have "0 < 1000 / d" using assms(3) by simp
  then have pos: "0 \<le> q" using assms(4) by (rule round_double_nonneg)
  have "js_round (Fin t1 - lastDrawTime s) = Fin d" using assms(1,2) by simp
  then have "js_round (Fin 1000 / js_round (Fin t1 - lastDrawTime s)) = Fin q"
    using assms(3,4) by simp
  then show ?thesis
    by (simp only: animate_fps bitwise_not_twice ToInt32_in_range [OF pos assms(5)])
qed

lemma fps_equal_timestamps:
  assumes "lastDrawTime s = Fin t"
  shows "fps (fst (animate t s e)) = Fin 0"
proof -
  have "js_round (Fin t - lastDrawTime s) = Fin 0"
    using assms by (simp add: round_double_def)
  then have "js_round (Fin 1000 / js_round (Fin t - lastDrawTime s)) = PInf" by simp
  then show ?thesis by (simp only: animate_fps bitwise_not_twice) simp
qed

text \<open>
  Ticks at the doubles nearest to 0.1 and 20.1: their exact difference is above 20 and
  the exact quotient below 50, but the rounded difference is 20 and the stored rate 50.
\<close>

lemma round_double_diff_example:
  "round_double (2828823515942093 / 140737488355328 - 3602879701896397 / 36028797018963968) = Fin 20"
proof -
  let ?r = "2828823515942093 / 140737488355328 - 3602879701896397 / 36028797018963968 :: real"
  have "round_double ?r =
     (let v = of_int (round_half_even (?r / 2 powi (4 - 52))) * 2 powi (4 - 52)
      in if 2 ^ 1024 \<le> \<bar>v\<bar> then (if 0 < ?r then PInf else NInf) else Fin v)"
    by (rule round_double_in_binade) simp_all
  moreover have "round_half_even (?r / 2 powi (4 - 52)) = 20 * 2 ^ 48"
    by (simp add: round_half_even_def Let_def power_int_minus)
  ultimately show ?thesis
    by (simp only: Let_def) (simp add: power_int_minus)
qed

lemma round_double_50: "round_double 50 = Fin 50"
proof -
  have "round_double 50 =
     (let v = of_int (round_half_even (50 / 2 powi (5 - 52))) * 2 powi (5 - 52)
      in if 2 ^ 1024 \<le> \<bar>v\<bar> then (if 0 < (50::real) then PInf else NInf) else Fin v)"
    by (rule round_double_in_binade) simp_all
  moreover have "(50::real) / 2 powi (5 - 52) = of_int (50 * 2 ^ 47)"
    by (simp add: power_int_minus field_simps)
  ultimately show ?thesis
    by (simp only: Let_def round_half_even_of_int) (simp add: power_int_minus)
qed

lemma fps_doubles_example:
  assumes "lastDrawTime s = Fin (3602879701896397 / 36028797018963968)"
  shows "fps (fst (animate (2828823515942093 / 140737488355328) s e)) = Fin 50"
proof -
  have "fps (fst (animate (2828823515942093 / 140737488355328) s e)) = Fin (of_int \<lfloor>50 :: real\<rfloor>)"
    by (rule fps_positive_delta [OF assms round_double_diff_example])
      (use round_double_50 in simp_all)
  then show ?thesis by simp
qed

text \<open>
  C7, as the code has it. On a frame tick at time \<open>t1\<close>, with \<open>t0\<close> the stored time of the
  tick before, the code computes the difference \<open>d\<close> of the two and the quotient \<open>q\<close> of
  1000 by \<open>d\<close>, both rounded to doubles, and stores \<open>fps = ~~q\<close>. When \<open>d\<close> is positive and
  \<open>q\<close> is below \<open>2^31\<close>, that is \<open>floor q\<close>. When the two times are equal the quotient is
  infinite and the stored rate is 0. For \<open>t0 = 0\<close> and \<open>t1 = 16\<close> the rate is 62. The tick
  stores \<open>t1\<close> as the time of the last tick.
\<close>

theorem fps_is_floor_of_quotient:
  assumes "lastDrawTime s = Fin t0"
  shows "(round_double (t1 - t0) = Fin d \<and> 0 < d \<and> round_double (1000 / d) = Fin q \<and> q < 2 ^ 31
            \<longrightarrow> fps (fst (animate t1 s e)) = Fin (of_int \<lfloor>q\<rfloor>))
       \<and> (t1 = t0 \<longrightarrow> fps (fst (animate t1 s e)) = Fin 0)
       \<and> (t0 = 0 \<and> t1 = 16 \<longrightarrow> fps (fst (animate t1 s e)) = Fin 62)
       \<and> lastDrawTime (fst (animate t1 s e)) = Fin t1"
proof (intro conjI impI)
  assume "round_double (t1 - t0) = Fin d \<and> 0 < d \<and> round_double (1000 / d) = Fin q \<and> q < 2 ^ 31"
  then show "fps (fst (animate t1 s e)) = Fin (of_int \<lfloor>q\<rfloor>)"
    using fps_positive_delta [OF assms, of t1 d q e] by blast
next
  assume "t1 = t0"
  then show "fps (fst (animate t1 s e)) = Fin 0"
    using fps_equal_timestamps [OF assms, of e] by simp
next
  assume a: "t0 = 0 \<and> t1 = 16"
  have "round_double (16 - 0) = Fin 16" using round_double_16 by simp
  moreover have "round_double (1000 / 16) = Fin (125 / 2)" using round_double_62_5 by simp
  ultimately have "fps (fst (animate 16 s e)) = Fin (of_int \<lfloor>125 / 2 :: real\<rfloor>)"
    using assms a by (intro fps_positive_delta [where ?t0.0 = 0 and d = 16]) simp_all
  then show "fps (fst (animate t1 s e)) = Fin 62" using a by simp
next
  show "lastDrawTime (fst (animate t1 s e)) = Fin t1" by (rule animate_fps)
qed

theorem fps_is_floor_of_quotient_witness:
  "fps (fst (animate 16
     (fst (animate 0
        (CanvasScene_new \<lparr>canvas_width = Fin 300, canvas_height = Fin 150, calls = []\<rparr>
           (Fin 2) (Some GlobeDot))
        \<lparr>random = (\<lambda>n. 1/2), frameRequests = 0\<rparr>))
     (snd (animate 0
        (CanvasScene_new \<lparr>canvas_width = Fin 300, canvas_height = Fin 150, calls = []\<rparr>
           (Fin 2) (Some GlobeDot))
        \<lparr>random = (\<lambda>n. 1/2), frameRequests = 0\<rparr>)))) = Fin 62
 \<and> round_double (16 - 0) = Fin 16 \<and> (0::real) < 16
 \<and> round_double (1000 / 16) = Fin (125 / 2) \<and> (125 / 2 :: real) < 2 ^ 31
 \<and> \<lfloor>125 / 2 :: real\<rfloor> = 62"
proof -
  let ?s = "fst (animate 0
       (CanvasScene_new \<lparr>canvas_width = Fin 300, canvas_height = Fin 150, calls = []\<rparr>
          (Fin 2) (Some GlobeDot))
       \<lparr>random = (\<lambda>n. 1/2), frameRequests = 0\<rparr>)"
  have a: "lastDrawTime ?s = Fin 0" by (rule animate_fps)
  have r: "round_double (16 - 0) = Fin 16" "round_double (1000 / 16) = Fin (125 / 2)"
    using round_double_16 round_double_62_5 by simp_all
  from fps_is_floor_of_quotient [OF a, of 16 16 "125 / 2"] r show ?thesis by simp
qed

text \<open>
  The claim as the specification words it, \<open>fps = floor (1000 / deltaMs)\<close> on each tick,
  fails on a tick that reads the same time as the tick before it: the quotient is
  infinite and so is its floor, and the code stores 0.
\<close>

theorem fps_equal_timestamps_counterexample:
  "fps (fst (ticks [16, 16]
       (CanvasScene_new \<lparr>canvas_width = Fin 300, canvas_height = Fin 150, calls = []\<rparr>
          (Fin 2) (Some GlobeDot))
       \<lparr>random = (\<lambda>n. 1/2), frameRequests = 0\<rparr>)) = Fin 0
 \<and> Math_floor (Fin 1000 / (Fin 16 - Fin 16)) = PInf
 \<and> fps (fst (ticks [16, 16]
       (CanvasScene_new \<lparr>canvas_width = Fin 300, canvas_height = Fin 150, calls = []\<rparr>
          (Fin 2) (Some GlobeDot))
       \<lparr>random = (\<lambda>n. 1/2), frameRequests = 0\<rparr>))
     \<noteq> Math_floor (Fin 1000 / (Fin 16 - Fin 16))"
proof -
  let ?s = "CanvasScene_new \<lparr>canvas_width = Fin 300, canvas_height = Fin 150, calls = []\<rparr>
              (Fin 2) (Some GlobeDot)"
  let ?e = "\<lparr>random = (\<lambda>n. 1/2), frameRequests = 0\<rparr>"
  have t: "fst (ticks [16, 16] ?s ?e)
      = fst (animate 16 (fst (animate 16 ?s ?e)) (snd (animate 16 ?s ?e)))"
    by (simp add: split_beta)
  have "lastDrawTime (fst (animate 16 ?s ?e)) = Fin 16" by (rule animate_fps)
  then have "fps (fst (ticks [16, 16] ?s ?e)) = Fin 0"
    unfolding t by (rule fps_equal_timestamps)
  then show ?thesis by simp
qed

section \<open>The loop of init\<close>

lemma construct_frameRequests:
  "frameRequests (snd (construct c w h e)) = frameRequests e"
  by (cases c) (simp_all add: construct_def skip_random_def)

lemma init_loop_count:
  assumes "\<And>e. P (fst (construct (RenderObjectClass s) (scene_width s) (scene_height s) e))"
  shows "\<exists>obs e'. init_loop (Fin (real n)) s e = Some (s\<lparr>renderObjects := renderObjects s @ obs\<rparr>, e')
           \<and> length obs = n \<and> list_all P obs \<and> frameRequests e' = frameRequests e"
  using assms
proof (induction n arbitrary: s e)
  case 0
  show ?case by (subst init_loop.simps) simp
next
  case (Suc n)
  obtain ob e1 where c: "construct (RenderObjectClass s) (scene_width s) (scene_height s) e = (ob, e1)"
    by (cases "construct (RenderObjectClass s) (scene_width s) (scene_height s) e")
  have Pob: "P ob" using Suc.prems [of e] c by simp
  have fr: "frameRequests e1 = frameRequests e"
    using construct_frameRequests [of "RenderObjectClass s" "scene_width s" "scene_height s" e] c
    by simp
  let ?s1 = "s\<lparr>renderObjects := renderObjects s @ [ob]\<rparr>"
  have "\<exists>obs e'. init_loop (Fin (real n)) ?s1 e1
             = Some (?s1\<lparr>renderObjects := renderObjects ?s1 @ obs\<rparr>, e')
           \<and> length obs = n \<and> list_all P obs \<and> frameRequests e' = frameRequests e1"
    by (rule Suc.IH) (use Suc.prems in simp)
  then obtain obs e' where r:
    "init_loop (Fin (real n)) ?s1 e1 = Some (?s1\<lparr>renderObjects := renderObjects ?s1 @ obs\<rparr>, e')"
    "length obs = n" "list_all P obs" "frameRequests e' = frameRequests e1" by blast
  have step: "init_loop (Fin (real (Suc n))) s e = init_loop (Fin (real n)) ?s1 e1"
    by (subst init_loop.simps) (simp add: c)
  have "init_loop (Fin (real (Suc n))) s e
          = Some (s\<lparr>renderObjects := renderObjects s @ (ob # obs)\<rparr>, e')"
    unfolding step using r(1) by simp
  moreover have "length (ob # obs) = Suc n" "list_all P (ob # obs)"
    using r Pob by simp_all
  moreover have "frameRequests e' = frameRequests e" using r fr by simp
  ultimately show ?case by blast
qed

lemma init_loop_returns_only:
  assumes "init_loop i s e = Some res"
  shows "(\<exists>n::nat. i = Fin (real n)) \<or> i = NaN \<or> i = Undefined"
proof (rule init_loop.raw_induct
    [where P = "\<lambda>i s e res. (\<exists>n::nat. i = Fin (real n)) \<or> i = NaN \<or> i = Undefined", OF _ assms])
  fix f i s e res
  assume IH: "\<And>i s e res. f i s e = Some res \<Longrightarrow>
                (\<exists>n::nat. i = Fin (real n)) \<or> i = NaN \<or> i = Undefined"
    and body: "(if truthy i
      then case construct (RenderObjectClass s) (scene_width s) (scene_height s) e of
           (ob, e') \<Rightarrow> f (i - Fin 1) (s\<lparr>renderObjects := renderObjects s @ [ob]\<rparr>) e'
      else Some (s, e)) = Some res"
  show "(\<exists>n::nat. i = Fin (real n)) \<or> i = NaN \<or> i = Undefined"
  proof (cases "truthy i")
    case False
    show ?thesis
    proof (cases i)
      case (Fin r)
      with False have "i = Fin (real (0::nat))" by simp
      then show ?thesis by blast
    qed (use False in simp_all)
  next
    case True
    obtain ob e1 where c: "construct (RenderObjectClass s) (scene_width s) (scene_height s) e = (ob, e1)"
      by (cases "construct (RenderObjectClass s) (scene_width s) (scene_height s) e")
    from body True c have "f (i - Fin 1) (s\<lparr>renderObjects := renderObjects s @ [ob]\<rparr>) e1 = Some res"
      by simp
    from IH[OF this] have q: "(\<exists>n::nat. i - Fin 1 = Fin (real n)) \<or> i - Fin 1 = NaN \<or> i - Fin 1 = Undefined" .
    show ?thesis
    proof (cases i)
      case (Fin r)
      with q obtain n :: nat where "r - 1 = real n" by auto
      then have "r = real (Suc n)" by simp
      with Fin show ?thesis by blast
    qed (use q True in auto)
  qed
qed

lemma init_negative_count: "renderObjectCount s = Fin r \<Longrightarrow> r < 0 \<Longrightarrow> init s e = None"
proof (rule ccontr)
  assume a: "renderObjectCount s = Fin r" "r < 0" and "init s e \<noteq> None"
  then obtain res where "init_loop (Fin r) s e = Some res" by (auto simp: init_def)
  from init_loop_returns_only [OF this] a(2) show False by auto
qed

lemma start_count:
  assumes "renderObjectCount s = Fin (real n)"
    and "\<And>e. P (fst (construct (RenderObjectClass s) (scene_width s) (scene_height s) e))"
  shows "\<exists>obs e'. start s e = Some (s\<lparr>renderObjects := renderObjects s @ obs\<rparr>, e')
           \<and> length obs = n \<and> list_all P obs"
proof -
  from init_loop_count [of P s n e, OF assms(2)]
  obtain obs e' where
    "init_loop (Fin (real n)) s e = Some (s\<lparr>renderObjects := renderObjects s @ obs\<rparr>, e')"
    "length obs = n" "list_all P obs" by blast
  then have "start s e = Some (s\<lparr>renderObjects := renderObjects s @ obs\<rparr>, requestAnimationFrame e')
      \<and> length obs = n \<and> list_all P obs"
    using assms(1) by (simp add: start_def init_def)
  then show ?thesis by blast
qed

text \<open>
  C9. \<open>init\<close> does not clear the collection. For a scene whose \<open>renderObjectCount\<close> is
  the natural number \<open>n\<close> and whose collection holds \<open>k\<close> objects, \<open>init()\<close> returns, keeps
  the \<open>k\<close> objects and appends \<open>n\<close> new ones. So INIT followed by two START messages
  leaves \<open>2 * n\<close> objects.
\<close>

theorem init_appends:
  assumes "renderObjectCount s = Fin (real n)"
  shows "(\<exists>obs e'. init s e = Some (s\<lparr>renderObjects := renderObjects s @ obs\<rparr>, e')
            \<and> length obs = n
            \<and> length (renderObjects s @ obs) = length (renderObjects s) + n)
       \<and> (\<exists>s' e'. process [INIT (Some cv) (Fin (real n)), START, START] wk
                     = Some ([Completed, Completed, Completed],
                             wk\<lparr>canvasScene := Some s', environment := e'\<rparr>)
            \<and> length (renderObjects s') = 2 * n)"
proof -
  from init_loop_count [of "\<lambda>ob. True" s n e]
  obtain obs e' where
    "init_loop (Fin (real n)) s e = Some (s\<lparr>renderObjects := renderObjects s @ obs\<rparr>, e')"
    "length obs = n" by auto
  then have A: "\<exists>obs e'. init s e = Some (s\<lparr>renderObjects := renderObjects s @ obs\<rparr>, e')
            \<and> length obs = n
            \<and> length (renderObjects s @ obs) = length (renderObjects s) + n"
    using assms by (auto simp: init_def)
  let ?sc = "CanvasScene_new cv (Fin (real n)) (Some GlobeDot)"
  have c0: "renderObjectCount ?sc = Fin (real n)" "renderObjects ?sc = []"
    by (simp_all add: CanvasScene_new_def)
  from start_count [of ?sc n "\<lambda>ob. True" "environment wk", OF c0(1)]
  obtain obs1 e1 where s1: "start ?sc (environment wk) = Some (?sc\<lparr>renderObjects := obs1\<rparr>, e1)"
    "length obs1 = n" using c0(2) by auto
  let ?s1 = "?sc\<lparr>renderObjects := obs1\<rparr>"
  have c1: "renderObjectCount ?s1 = Fin (real n)" by (simp add: CanvasScene_new_def)
  from start_count [of ?s1 n "\<lambda>ob. True" e1, OF c1]
  obtain obs2 e2 where s2: "start ?s1 e1 = Some (?s1\<lparr>renderObjects := renderObjects ?s1 @ obs2\<rparr>, e2)"
    "length obs2 = n" by auto
  let ?s2 = "?s1\<lparr>renderObjects := renderObjects ?s1 @ obs2\<rparr>"
  have "process [INIT (Some cv) (Fin (real n)), START, START] wk
          = Some ([Completed, Completed, Completed], wk\<lparr>canvasScene := Some ?s2, environment := e2\<rparr>)"
    using s1(1) s2(1) by (simp add: onmessage_def)
  moreover have "length (renderObjects ?s2) = 2 * n" using s1(2) s2(2) by simp
  ultimately show ?thesis using A by blast
qed

theorem init_appends_witness:
  "renderObjectCount (CanvasScene_new \<lparr>canvas_width = Fin 300, canvas_height = Fin 150, calls = []\<rparr>
       (Fin 2) (Some GlobeDot)) = Fin (real 2)
 \<and> (\<exists>obs e'. init (CanvasScene_new \<lparr>canvas_width = Fin 300, canvas_height = Fin 150, calls = []\<rparr>
                   (Fin 2) (Some GlobeDot)) \<lparr>random = (\<lambda>n. 1/2), frameRequests = 0\<rparr>
        = Some ((CanvasScene_new \<lparr>canvas_width = Fin 300, canvas_height = Fin 150, calls = []\<rparr>
                   (Fin 2) (Some GlobeDot))\<lparr>renderObjects := obs\<rparr>, e')
      \<and> length obs = 2)
 \<and> (\<exists>s' e'. process [INIT (Some \<lparr>canvas_width = Fin 300, canvas_height = Fin 150, calls = []\<rparr>) (Fin 2),
                       START, START]
                \<lparr>canvasScene = None, environment = \<lparr>random = (\<lambda>n. 1/2), frameRequests = 0\<rparr>\<rparr>
        = Some ([Completed, Completed, Completed], \<lparr>canvasScene = Some s', environment = e'\<rparr>)
      \<and> length (renderObjects s') = 4)"
proof -
  let ?cv = "\<lparr>canvas_width = Fin 300, canvas_height = Fin 150, calls = []\<rparr>"
  let ?s = "CanvasScene_new ?cv (Fin 2) (Some GlobeDot)"
  let ?e = "\<lparr>random = (\<lambda>n. 1/2), frameRequests = 0\<rparr>"
  let ?wk = "\<lparr>canvasScene = None, environment = ?e\<rparr>"
  have h: "renderObjectCount ?s = Fin (real 2)" by (simp add: CanvasScene_new_def)
  have e: "renderObjects ?s = []" by (simp add: CanvasScene_new_def)
  note t = init_appends [OF h, of ?e ?cv ?wk]
  from t obtain obs e' where
    a: "init ?s ?e = Some (?s\<lparr>renderObjects := renderObjects ?s @ obs\<rparr>, e')" "length obs = 2"
    by blast
  from t obtain s' e'' where
    b: "process [INIT (Some ?cv) (Fin (real 2)), START, START] ?wk
          = Some ([Completed, Completed, Completed],
                  ?wk\<lparr>canvasScene := Some s', environment := e''\<rparr>)"
      "length (renderObjects s') = 2 * 2"
    by blast
  have "init ?s ?e = Some (?s\<lparr>renderObjects := obs\<rparr>, e')"
    using a(1) unfolding e by simp
  moreover have "process [INIT (Some ?cv) (Fin 2), START, START] ?wk
      = Some ([Completed, Completed, Completed], \<lparr>canvasScene = Some s', environment = e''\<rparr>)"
    using b(1) by simp
  moreover have "length (renderObjects s') = 4" using b(2) by simp
  ultimately show ?thesis using h a(2) by blast
qed

section \<open>Messages before and after INIT\<close>

lemma process_without_scene:
  assumes "canvasScene wk = None" "\<And>cv n. INIT cv n \<notin> set evts"
  shows "process evts wk
           = Some (map (\<lambda>evt. if evt = Other then Completed else TypeError) evts, wk)"
  using assms(2)
proof (induction evts)
  case Nil
  show ?case by simp
next
  case (Cons evt evts)
  have no: "\<And>cv n. INIT cv n \<notin> set evts" using Cons.prems by simp
  have ne: "\<And>cv n. evt \<noteq> INIT cv n" using Cons.prems by auto
  have "onmessage evt wk = Some (if evt = Other then Completed else TypeError, wk)"
  proof (cases evt)
    case (INIT cv n)
    with ne show ?thesis by blast
  qed (use assms(1) in \<open>simp_all add: onmessage_def\<close>)
  then show ?case using Cons.IH [OF no] by simp
qed

text \<open>
  C8. While \<open>canvasScene\<close> is \<open>null\<close>, START and RESIZE end in a TypeError and leave
  the worker as it was, \<open>canvasScene\<close> included; so in a sequence of messages without
  INIT every START and RESIZE faults and the scene is still \<open>null\<close> at the end. INIT
  with a canvas stores a new scene of GlobeDots; from then on START runs \<open>start\<close> and RESIZE runs \<open>resize\<close> on
  the stored scene.
\<close>

theorem handler_before_and_after_INIT:
  "(canvasScene wk = None \<longrightarrow>
      onmessage START wk = Some (TypeError, wk)
    \<and> onmessage (RESIZE h w d) wk = Some (TypeError, wk))
 \<and> (canvasScene wk = None \<and> (\<forall>cv n. INIT cv n \<notin> set evts) \<longrightarrow>
      process evts wk
        = Some (map (\<lambda>evt. if evt = Other then Completed else TypeError) evts, wk))
 \<and> onmessage (INIT (Some cv) n) wk
      = Some (Completed, wk\<lparr>canvasScene := Some (CanvasScene_new cv n (Some GlobeDot))\<rparr>)
 \<and> onmessage (INIT None n) wk = Some (TypeError, wk)
 \<and> (canvasScene wk = Some s \<longrightarrow>
      onmessage START wk
        = (case start s (environment wk) of
             None \<Rightarrow> None
           | Some (s', e') \<Rightarrow> Some (Completed, wk\<lparr>canvasScene := Some s', environment := e'\<rparr>))
    \<and> onmessage (RESIZE h w d) wk
        = (case resize h w d s (environment wk) of
             (s', e') \<Rightarrow> Some (Completed, wk\<lparr>canvasScene := Some s', environment := e'\<rparr>)))"
proof (intro conjI impI)
  assume "canvasScene wk = None \<and> (\<forall>cv n. INIT cv n \<notin> set evts)"
  then show "process evts wk
        = Some (map (\<lambda>evt. if evt = Other then Completed else TypeError) evts, wk)"
    by (intro process_without_scene) simp_all
qed (simp_all add: onmessage_def)

theorem handler_before_and_after_INIT_witness:
  "process [Other, START, RESIZE (Fin 300) (Fin 400) (Fin 1), START]
     \<lparr>canvasScene = None, environment = \<lparr>random = (\<lambda>n. 1/2), frameRequests = 0\<rparr>\<rparr>
   = Some ([Completed, TypeError, TypeError, TypeError],
       \<lparr>canvasScene = None, environment = \<lparr>random = (\<lambda>n. 1/2), frameRequests = 0\<rparr>\<rparr>)
 \<and> onmessage START
     \<lparr>canvasScene = None, environment = \<lparr>random = (\<lambda>n. 1/2), frameRequests = 0\<rparr>\<rparr>
   = Some (TypeError,
       \<lparr>canvasScene = None, environment = \<lparr>random = (\<lambda>n. 1/2), frameRequests = 0\<rparr>\<rparr>)
 \<and> fst (the (onmessage (RESIZE (Fin 300) (Fin 400) (Fin 1))
     \<lparr>canvasScene = Some (CanvasScene_new
          \<lparr>canvas_width = Fin 300, canvas_height = Fin 150, calls = []\<rparr> (Fin 2) (Some GlobeDot)),
      environment = \<lparr>random = (\<lambda>n. 1/2), frameRequests = 0\<rparr>\<rparr>)) = Completed"
proof -
  let ?wk = "\<lparr>canvasScene = None, environment = \<lparr>random = (\<lambda>n. 1/2), frameRequests = 0\<rparr>\<rparr>"
  let ?s = "CanvasScene_new \<lparr>canvas_width = Fin 300, canvas_height = Fin 150, calls = []\<rparr>
              (Fin 2) (Some GlobeDot)"
  let ?wk' = "\<lparr>canvasScene = Some ?s, environment = \<lparr>random = (\<lambda>n. 1/2), frameRequests = 0\<rparr>\<rparr>"
  note a = handler_before_and_after_INIT
    [of ?wk "Fin 300" "Fin 400" "Fin 1" "[Other, START, RESIZE (Fin 300) (Fin 400) (Fin 1), START]"]
  note b = handler_before_and_after_INIT [of ?wk' "Fin 300" "Fin 400" "Fin 1" _ _ _ ?s]
  have "process [Other, START, RESIZE (Fin 300) (Fin 400) (Fin 1), START] ?wk
      = Some ([Completed, TypeError, TypeError, TypeError], ?wk)"
    using a by simp
  moreover have "onmessage START ?wk = Some (TypeError, ?wk)"
    using a by simp
  moreover have "fst (the (onmessage (RESIZE (Fin 300) (Fin 400) (Fin 1)) ?wk')) = Completed"
    using b by (simp add: split_beta)
  ultimately show ?thesis by blast
qed

section \<open>A scene that was never resized\<close>

lemma construct_unsized: "unsized (fst (construct GlobeDot Undefined Undefined e))"
  by (simp add: unsized_def construct_def GlobeDot_new_def RenderObject_constructor_def
      new_object_def)

lemma update_unsized: "unsized ob \<Longrightarrow> unsized (update ob)"
  by (simp add: unsized_def update_def GlobeDot_update_def)

lemma draw_unsized:
  "unsized ob \<Longrightarrow>
   unsized (fst (draw ob cv)) \<and> xProjected (fst (draw ob cv)) = NaN
     \<and> yProjected (fst (draw ob cv)) = NaN"
  by (simp add: unsized_def draw_def GlobeDot_draw_def GlobeDot_project_def Let_def)

lemma draw_each_unsized:
  "list_all unsized obs \<Longrightarrow>
   list_all (\<lambda>ob. unsized ob \<and> xProjected ob = NaN \<and> yProjected ob = NaN)
     (fst (draw_each obs cv))"
proof (induction obs arbitrary: cv)
  case Nil
  show ?case by simp
next
  case (Cons ob obs)
  then have u: "unsized ob" and us: "list_all unsized obs" by simp_all
  from draw_unsized [OF u, of cv] Cons.IH [OF us, of "snd (draw ob cv)"]
  show ?case by (simp add: split_beta)
qed

lemma draw_each_length: "length (fst (draw_each obs cv)) = length obs"
  by (induction obs arbitrary: cv) (simp_all add: split_beta)

lemma animate_unsized:
  assumes "unsized_scene s"
  shows "unsized_scene (fst (animate now s e))"
    and "list_all (\<lambda>ob. unsized ob \<and> xProjected ob = NaN \<and> yProjected ob = NaN)
           (renderObjects (fst (animate now s e)))"
    and "length (renderObjects (fst (animate now s e))) = length (renderObjects s)"
    and "last (calls (canvas (fst (animate now s e))))
           = FillText (fps (fst (animate now s e))) (Fin 10) (Fin 10)"
proof -
  have u: "list_all unsized (map update (renderObjects s))"
    using assms by (simp add: unsized_scene_def list_all_iff update_unsized)
  have obs: "renderObjects (fst (animate now s e))
      = fst (draw_each (map update (renderObjects s))
          (ctx_call (ClearRect (Fin 0) (Fin 0) (scene_width s) (scene_height s)) (canvas s)))"
    by (simp add: animate_def Let_def CanvasScene_update_def clear_def CanvasScene_draw_def
        drawFps_def split_beta)
  show n: "list_all (\<lambda>ob. unsized ob \<and> xProjected ob = NaN \<and> yProjected ob = NaN)
           (renderObjects (fst (animate now s e)))"
    unfolding obs by (rule draw_each_unsized [OF u])
  then have "list_all unsized (renderObjects (fst (animate now s e)))"
    by (simp add: list_all_iff)
  moreover have "RenderObjectClass (fst (animate now s e)) = RenderObjectClass s"
    "scene_width (fst (animate now s e)) = scene_width s"
    "scene_height (fst (animate now s e)) = scene_height s"
    by (simp_all add: animate_def Let_def CanvasScene_update_def clear_def CanvasScene_draw_def
        drawFps_def split_beta)
  ultimately show "unsized_scene (fst (animate now s e))"
    using assms by (simp add: unsized_scene_def)
  show "length (renderObjects (fst (animate now s e))) = length (renderObjects s)"
    unfolding obs by (simp add: draw_each_length)
  show "last (calls (canvas (fst (animate now s e))))
           = FillText (fps (fst (animate now s e))) (Fin 10) (Fin 10)"
    by (simp add: animate_def Let_def CanvasScene_update_def clear_def CanvasScene_draw_def
        drawFps_def split_beta ctx_call_def)
qed

lemma ticks_unsized:
  assumes "unsized_scene s"
  shows "unsized_scene (fst (ticks nows s e))
       \<and> length (renderObjects (fst (ticks nows s e))) = length (renderObjects s)
       \<and> (nows \<noteq> [] \<longrightarrow>
            list_all (\<lambda>ob. unsized ob \<and> xProjected ob = NaN \<and> yProjected ob = NaN)
              (renderObjects (fst (ticks nows s e)))
          \<and> last (calls (canvas (fst (ticks nows s e))))
              = FillText (fps (fst (ticks nows s e))) (Fin 10) (Fin 10))"
  using assms
proof (induction nows arbitrary: s e rule: rev_induct)
  case Nil
  then show ?case by simp
next
  case (snoc now nows)
  have app: "\<And>s e. ticks (nows @ [now]) s e
      = animate now (fst (ticks nows s e)) (snd (ticks nows s e))"
  proof (induction nows)
    case Nil
    show ?case by (simp add: split_beta)
  next
    case (Cons a nows)
    show ?case by (simp add: split_beta Cons)
  qed
  from snoc.IH [OF snoc.prems, of e]
  have u: "unsized_scene (fst (ticks nows s e))"
    and l: "length (renderObjects (fst (ticks nows s e))) = length (renderObjects s)"
    by simp_all
  show ?case
    unfolding app
    using animate_unsized [OF u, of now "snd (ticks nows s e)"] l by simp
qed

lemma init_loop_unsized:
  assumes "init_loop i s e = Some (s', e')" "unsized_scene s"
  shows "unsized_scene s'"
proof -
  have P: "\<And>e. unsized (fst (construct (RenderObjectClass s) (scene_width s) (scene_height s) e))"
    using assms(2) by (simp add: unsized_scene_def construct_unsized)
  from init_loop_returns_only [OF assms(1)]
  consider n :: nat where "i = Fin (real n)" | "i = NaN" | "i = Undefined" by blast
  then show ?thesis
  proof cases
    case 1
    from init_loop_count [of unsized s n e, OF P] assms(1) 1
    obtain obs where "s' = s\<lparr>renderObjects := renderObjects s @ obs\<rparr>" "list_all unsized obs"
      by auto
    then show ?thesis using assms(2) by (simp add: unsized_scene_def)
  next
    case 2
    have "init_loop NaN s e = Some (s, e)" by (subst init_loop.simps) simp
    with assms 2 show ?thesis by simp
  next
    case 3
    have "init_loop Undefined s e = Some (s, e)" by (subst init_loop.simps) simp
    with assms 3 show ?thesis by simp
  qed
qed

lemma onmessage_unsized:
  assumes "onmessage evt wk = Some (r, wk')" "\<And>h w d. evt \<noteq> RESIZE h w d"
    and "case canvasScene wk of None \<Rightarrow> True | Some s \<Rightarrow> unsized_scene s"
  shows "case canvasScene wk' of None \<Rightarrow> True | Some s \<Rightarrow> unsized_scene s"
proof (cases evt)
  case (INIT cv n)
  with assms(1,3) show ?thesis
    by (cases cv) (auto simp: onmessage_def unsized_scene_def CanvasScene_new_def)
next
  case START
  show ?thesis
  proof (cases "canvasScene wk")
    case None
    with START assms(1) show ?thesis by (auto simp: onmessage_def)
  next
    case (Some s)
    with START assms(1) obtain s' e' where st: "start s (environment wk) = Some (s', e')"
      and wk': "wk' = wk\<lparr>canvasScene := Some s', environment := e'\<rparr>"
      by (auto simp: onmessage_def split: option.splits)
    from st obtain e'' where "init_loop (renderObjectCount s) s (environment wk) = Some (s', e'')"
      by (auto simp: start_def init_def split: option.splits)
    from init_loop_unsized [OF this] assms(3) Some have "unsized_scene s'" by simp
    with wk' show ?thesis by simp
  qed
next
  case (RESIZE h w d)
  with assms(2) show ?thesis by blast
next
  case Other
  with assms(1,3) show ?thesis by (auto simp: onmessage_def)
qed

lemma process_unsized:
  assumes "process evts wk = Some (rs, wk')" "\<And>h w d. RESIZE h w d \<notin> set evts"
    and "case canvasScene wk of None \<Rightarrow> True | Some s \<Rightarrow> unsized_scene s"
  shows "case canvasScene wk' of None \<Rightarrow> True | Some s \<Rightarrow> unsized_scene s"
  using assms
proof (induction evts arbitrary: wk rs)
  case Nil
  then show ?case by simp
next
  case (Cons evt evts)
  from Cons.prems(1) obtain r wk1 rs1 where
    a: "onmessage evt wk = Some (r, wk1)" and b: "process evts wk1 = Some (rs1, wk')"
    by (auto split: option.splits)
  have ne: "\<And>h w d. evt \<noteq> RESIZE h w d" using Cons.prems(2) by auto
  have no: "\<And>h w d. RESIZE h w d \<notin> set evts" using Cons.prems(2) by simp
  from onmessage_unsized [OF a ne Cons.prems(3)]
  have "case canvasScene wk1 of None \<Rightarrow> True | Some s \<Rightarrow> unsized_scene s" .
  from Cons.IH [OF b no this] show ?case .
qed

text \<open>
  C10. The constructor of the scene leaves its width and height \<open>undefined\<close>. Take a run
  of messages from the start of the worker, none of them RESIZE, after which a scene is
  stored: its width and height are still \<open>undefined\<close>, and every object that a START has
  constructed has \<open>undefined\<close> width and height and the position NaN. Frame ticks on that
  scene run through to the frame-rate overlay, keep every object, and leave each with
  NaN coordinates and NaN projections.
\<close>

theorem no_resize_gives_NaN:
  assumes "canvasScene wk0 = None" "\<forall>h w d. RESIZE h w d \<notin> set evts"
    and "process evts wk0 = Some (rs, wk)" "canvasScene wk = Some s"
  shows "scene_width (CanvasScene_new cv n c) = Undefined
       \<and> scene_height (CanvasScene_new cv n c) = Undefined
       \<and> scene_width s = Undefined \<and> scene_height s = Undefined
       \<and> list_all (\<lambda>ob. width ob = Undefined \<and> height ob = Undefined
                      \<and> x ob = NaN \<and> y ob = NaN \<and> z ob = NaN) (renderObjects s)
       \<and> (let s' = fst (ticks (now # nows) s e)
          in length (renderObjects s') = length (renderObjects s)
           \<and> list_all (\<lambda>ob. x ob = NaN \<and> y ob = NaN \<and> z ob = NaN
                       \<and> xProjected ob = NaN \<and> yProjected ob = NaN) (renderObjects s')
           \<and> last (calls (canvas s')) = FillText (fps s') (Fin 10) (Fin 10))"
proof -
  have "case canvasScene wk of None \<Rightarrow> True | Some s \<Rightarrow> unsized_scene s"
    by (rule process_unsized [OF assms(3)]) (use assms(1,2) in simp_all)
  then have u: "unsized_scene s" using assms(4) by simp
  then have a: "scene_width s = Undefined \<and> scene_height s = Undefined
       \<and> list_all (\<lambda>ob. width ob = Undefined \<and> height ob = Undefined
                      \<and> x ob = NaN \<and> y ob = NaN \<and> z ob = NaN) (renderObjects s)"
    by (simp add: unsized_scene_def unsized_def list_all_iff)
  from ticks_unsized [OF u, of "now # nows" e]
  have b: "length (renderObjects (fst (ticks (now # nows) s e))) = length (renderObjects s)
       \<and> list_all (\<lambda>ob. x ob = NaN \<and> y ob = NaN \<and> z ob = NaN
                       \<and> xProjected ob = NaN \<and> yProjected ob = NaN)
            (renderObjects (fst (ticks (now # nows) s e)))
       \<and> last (calls (canvas (fst (ticks (now # nows) s e))))
            = FillText (fps (fst (ticks (now # nows) s e))) (Fin 10) (Fin 10)"
    by (simp add: unsized_def list_all_iff)
  have c: "scene_width (CanvasScene_new cv n c) = Undefined
       \<and> scene_height (CanvasScene_new cv n c) = Undefined"
    by (simp add: CanvasScene_new_def)
  show ?thesis unfolding Let_def using a b c by blast
qed

theorem no_resize_gives_NaN_witness:
  "let wk0 = \<lparr>canvasScene = None, environment = \<lparr>random = (\<lambda>n. 1/2), frameRequests = 0\<rparr>\<rparr>;
       evts = [INIT (Some \<lparr>canvas_width = Fin 300, canvas_height = Fin 150, calls = []\<rparr>) (Fin 2),
               START];
       s = the (canvasScene (snd (the (process evts wk0))));
       s' = fst (ticks [0, 16] s \<lparr>random = (\<lambda>n. 1/2), frameRequests = 1\<rparr>)
   in canvasScene wk0 = None
    \<and> fst (the (process evts wk0)) = [Completed, Completed]
    \<and> length (renderObjects s) = 2
    \<and> scene_width s = Undefined \<and> scene_height s = Undefined
    \<and> list_all (\<lambda>ob. width ob = Undefined \<and> height ob = Undefined
                   \<and> x ob = NaN \<and> y ob = NaN \<and> z ob = NaN) (renderObjects s)
    \<and> length (renderObjects s') = 2
    \<and> list_all (\<lambda>ob. x ob = NaN \<and> y ob = NaN \<and> z ob = NaN
                   \<and> xProjected ob = NaN \<and> yProjected ob = NaN) (renderObjects s')
    \<and> last (calls (canvas s')) = FillText (fps s') (Fin 10) (Fin 10)"
proof -
  let ?cv = "\<lparr>canvas_width = Fin 300, canvas_height = Fin 150, calls = []\<rparr>"
  let ?e = "\<lparr>random = (\<lambda>n. 1/2), frameRequests = 0\<rparr>"
  let ?w = "\<lparr>canvasScene = None, environment = ?e\<rparr>"
  let ?evts = "[INIT (Some ?cv) (Fin 2), START]"
  let ?sc = "CanvasScene_new ?cv (Fin 2) (Some GlobeDot)"
  have c: "renderObjectCount ?sc = Fin (real 2)" by (simp add: CanvasScene_new_def)
  from start_count [of ?sc 2 "\<lambda>ob. True" ?e, OF c]
  obtain obs e' where st: "start ?sc ?e = Some (?sc\<lparr>renderObjects := renderObjects ?sc @ obs\<rparr>, e')"
    and len: "length obs = 2" by auto
  let ?s = "?sc\<lparr>renderObjects := renderObjects ?sc @ obs\<rparr>"
  let ?wk = "\<lparr>canvasScene = Some ?s, environment = e'\<rparr>"
  have p: "process ?evts ?w = Some ([Completed, Completed], ?wk)"
    using st by (simp add: onmessage_def)
  have h1: "canvasScene ?w = None" by simp
  have h2: "\<forall>h w d. RESIZE h w d \<notin> set ?evts" by simp
  have h4: "canvasScene ?wk = Some ?s" by simp
  have l: "length (renderObjects ?s) = 2" using len by (simp add: CanvasScene_new_def)
  note t = no_resize_gives_NaN [OF h1 h2 p h4, of ?cv "Fin 2" "Some GlobeDot" 0 "[16]"
      "\<lparr>random = (\<lambda>n. 1/2), frameRequests = 1\<rparr>"]
  show ?thesis
    unfolding Let_def p using t l unfolding Let_def by simp
qed

end
